theory Spec2Isabelle
  imports
    Complex_Main
    "HOL-Library.AList"
    "HOL-Library.Char_ord"
    "HOL-Library.List_Lexorder"
    "HOL-Library.Product_Lexorder"
    "HOL-Library.Word"
begin

section \<open>Python values and dictionaries\<close>

text \<open>
  The parameter resolver of \<^verbatim>\<open>src/services/prompt_agent.py\<close> works on
  \<^verbatim>\<open>dict[str, Any]\<close>. A value is a JSON scalar or a nested dictionary; a
  dictionary is an association list in insertion order with distinct keys. A float is
  only stored, tested for truth and compared with \<^verbatim>\<open>-1\<close>, never computed with,
  and is represented by its rational value.
\<close>

datatype pyval =
    PNone
  | PBool bool
  | PInt int
  | PFloat rat
  | PStr string
  | PDict "(string \<times> pyval) list"

type_synonym pydict = "(string \<times> pyval) list"

text \<open>\<^verbatim>\<open>d.get(k)\<close>: the value, or \<^verbatim>\<open>None\<close> for a missing key.\<close>

definition dict_get :: "pydict \<Rightarrow> string \<Rightarrow> pyval" where
  "dict_get d k = (case map_of d k of None \<Rightarrow> PNone | Some v \<Rightarrow> v)"

text \<open>\<^verbatim>\<open>d.get(k, dflt)\<close>.\<close>

definition dict_get_default :: "pydict \<Rightarrow> string \<Rightarrow> pyval \<Rightarrow> pyval" where
  "dict_get_default d k dflt = (case map_of d k of None \<Rightarrow> dflt | Some v \<Rightarrow> v)"

text \<open>\<^verbatim>\<open>d[k] = v\<close>: an existing key keeps its position, a new key goes last.\<close>

definition dict_set :: "string \<Rightarrow> pyval \<Rightarrow> pydict \<Rightarrow> pydict" where
  "dict_set k v d = AList.update k v d"

text \<open>\<^verbatim>\<open>k in d\<close> for a dictionary \<^verbatim>\<open>d\<close>.\<close>

definition dict_has :: "pydict \<Rightarrow> string \<Rightarrow> bool" where
  "dict_has d k = (map_of d k \<noteq> None)"

text \<open>\<^verbatim>\<open>d.update(items)\<close>.\<close>

fun dict_update :: "pydict \<Rightarrow> pydict \<Rightarrow> pydict" where
  "dict_update d [] = d"
| "dict_update d ((k, v) # kvs) = dict_update (dict_set k v d) kvs"

text \<open>Truth value of an object, as \<^verbatim>\<open>if x:\<close> tests it.\<close>

fun truthy :: "pyval \<Rightarrow> bool" where
  "truthy PNone = False"
| "truthy (PBool b) = b"
| "truthy (PInt i) = (i \<noteq> 0)"
| "truthy (PFloat r) = (r \<noteq> 0)"
| "truthy (PStr s) = (s \<noteq> [])"
| "truthy (PDict d) = (d \<noteq> [])"

text \<open>An optional dictionary argument: \<^verbatim>\<open>None\<close> and \<^verbatim>\<open>{}\<close> are both false.\<close>

fun truthy_opt :: "pydict option \<Rightarrow> bool" where
  "truthy_opt None = False"
| "truthy_opt (Some d) = (d \<noteq> [])"

text \<open>\<^verbatim>\<open>x == -1\<close>: numbers compare by value across \<^verbatim>\<open>int\<close> and \<^verbatim>\<open>float\<close>.\<close>

fun eq_minus_one :: "pyval \<Rightarrow> bool" where
  "eq_minus_one (PInt i) = (i = - 1)"
| "eq_minus_one (PFloat r) = (r = - 1)"
| "eq_minus_one _ = False"

subsection \<open>Strings\<close>

fun starts_with :: "string \<Rightarrow> string \<Rightarrow> bool" where
  "starts_with [] s = True"
| "starts_with (c # cs) [] = False"
| "starts_with (c # cs) (d # ds) = (c = d \<and> starts_with cs ds)"

text \<open>\<^verbatim>\<open>t in s\<close> for two strings: \<^verbatim>\<open>t\<close> occurs in \<^verbatim>\<open>s\<close>.\<close>

fun str_contains :: "string \<Rightarrow> string \<Rightarrow> bool" where
  "str_contains t [] = (t = [])"
| "str_contains t (c # cs) = (starts_with t (c # cs) \<or> str_contains t cs)"

text \<open>\<^verbatim>\<open>s.strip(chars)\<close>: drop the characters of \<^verbatim>\<open>chars\<close> at both ends.\<close>

definition py_strip :: "string \<Rightarrow> string \<Rightarrow> string" where
  "py_strip chars s =
     rev (dropWhile (\<lambda>c. c \<in> set chars) (rev (dropWhile (\<lambda>c. c \<in> set chars) s)))"

subsection \<open>Exceptions\<close>

text \<open>
  The instances of \<^verbatim>\<open>Exception\<close> the modelled code raises or receives from its
  collaborators. \<open>ApplicationError\<close> stands for the other subclasses of
  \<^verbatim>\<open>ApplicationError\<close> of \<^verbatim>\<open>error_handler.py\<close>, with their message;
  \<open>PyException\<close> for any other exception, with its \<^verbatim>\<open>str(e)\<close>.
\<close>

datatype exn =
    AttributeError
  | TypeError
  | KeyError
  | LLMAPIError string
  | DatabaseError string
  | ApplicationError string
  | PyException string

text \<open>
  \<^verbatim>\<open>a in b\<close>. A string container needs a string on the left; a dictionary tests
  its keys and needs a hashable left operand; no other modelled value is a container.
\<close>

fun py_in :: "pyval \<Rightarrow> pyval \<Rightarrow> exn + bool" where
  "py_in (PStr t) (PStr s) = Inr (str_contains t s)"
| "py_in a (PStr s) = Inl TypeError"
| "py_in (PDict x) (PDict d) = Inl TypeError"
| "py_in (PStr k) (PDict d) = Inr (dict_has d k)"
| "py_in a (PDict d) = Inr False"
| "py_in a b = Inl TypeError"

text \<open>
  \<^verbatim>\<open>f"{v}"\<close>: a string is inserted as it is. How Python prints any other value is
  the parameter \<open>fmt\<close>.
\<close>

fun py_format :: "(pyval \<Rightarrow> string) \<Rightarrow> pyval \<Rightarrow> string" where
  "py_format fmt (PStr s) = s"
| "py_format fmt v = fmt v"

section \<open>The parameter resolver\<close>

text \<open>The fields of \<^verbatim>\<open>Settings\<close> (\<^verbatim>\<open>config/settings.py\<close>) that the core reads.\<close>

record Settings =
  default_steps :: int
  default_cfg_scale :: rat
  default_sampler :: "string option"
  default_scheduler :: "string option"
  default_width :: int
  default_height :: int
  queue_error_retry_interval :: rat

text \<open>
  The columns of \<^verbatim>\<open>GenerationMetadata\<close> (\<^verbatim>\<open>models/generation.py\<close>) that the
  resolver reads; \<open>negative_prompt\<close> and \<open>scheduler\<close> are nullable.
\<close>

record GenerationMetadata =
  prompt :: string
  negative_prompt :: "string option"
  steps :: int
  cfg_scale :: rat
  sampler :: string
  scheduler :: "string option"
  width :: int
  height :: int

fun opt_str :: "string option \<Rightarrow> pyval" where
  "opt_str None = PNone"
| "opt_str (Some s) = PStr s"

definition SD_PARAM_KEYS :: "string list" where
  "SD_PARAM_KEYS = [''steps'', ''cfg_scale'', ''sampler'', ''scheduler'', ''width'', ''height'']"

text \<open>\<^verbatim>\<open>getattr(previous_metadata, key, None)\<close> for the keys of \<open>SD_PARAM_KEYS\<close>.\<close>

definition getattr_metadata :: "GenerationMetadata \<Rightarrow> string \<Rightarrow> pyval" where
  "getattr_metadata pm key =
     (if key = ''steps'' then PInt (steps pm)
      else if key = ''cfg_scale'' then PFloat (cfg_scale pm)
      else if key = ''sampler'' then PStr (sampler pm)
      else if key = ''scheduler'' then opt_str (scheduler pm)
      else if key = ''width'' then PInt (width pm)
      else if key = ''height'' then PInt (height pm)
      else PNone)"

text \<open>
  \<^verbatim>\<open>for key in keys: if src(key) is not None: target[key] = src(key)\<close>, the loop
  of lines 241-243, 275-277 and 281-284.
\<close>

fun override_with :: "(string \<Rightarrow> pyval) \<Rightarrow> string list \<Rightarrow> pydict \<Rightarrow> pydict" where
  "override_with src [] tgt = tgt"
| "override_with src (k # ks) tgt =
     override_with src ks (if src k \<noteq> PNone then dict_set k (src k) tgt else tgt)"

text \<open>
  \<^verbatim>\<open>sd_params = global_settings.get("default_sd_params", {})\<close> followed by
  \<^verbatim>\<open>sd_params.get(key)\<close>: a value that is not a dictionary has no \<^verbatim>\<open>get\<close>.
\<close>

definition get_sd_params :: "pydict \<Rightarrow> exn + pydict" where
  "get_sd_params gs =
     (case dict_get_default gs ''default_sd_params'' (PDict []) of
        PDict d \<Rightarrow> Inr d
      | _ \<Rightarrow> Inl AttributeError)"

text \<open>Lines 229-243: the application defaults, overwritten by the global settings.\<close>

definition base_defaults :: "Settings \<Rightarrow> pydict" where
  "base_defaults st =
     [(''steps'', PInt (default_steps st)),
      (''cfg_scale'', PFloat (default_cfg_scale st)),
      (''sampler'', opt_str (default_sampler st)),
      (''scheduler'', opt_str (default_scheduler st)),
      (''width'', PInt (default_width st)),
      (''height'', PInt (default_height st))]"

definition global_override :: "pydict option \<Rightarrow> pydict \<Rightarrow> exn + pydict" where
  "global_override global_settings tgt =
     (if truthy_opt global_settings then
        (case get_sd_params (the global_settings) of
           Inl e \<Rightarrow> Inl e
         | Inr sd_params \<Rightarrow> Inr (override_with (dict_get sd_params) SD_PARAM_KEYS tgt))
      else Inr tgt)"

text \<open>Lines 246-258: \<^verbatim>\<open>defaults.update({...})\<close> from the previous metadata.\<close>

definition previous_items :: "GenerationMetadata \<Rightarrow> pydict" where
  "previous_items pm =
     [(''prompt'', PStr (prompt pm)),
      (''negative_prompt'',
         PStr (case negative_prompt pm of None \<Rightarrow> [] | Some n \<Rightarrow> n)),
      (''steps'', PInt (steps pm)),
      (''cfg_scale'', PFloat (cfg_scale pm)),
      (''sampler'', PStr (sampler pm)),
      (''scheduler'', opt_str (scheduler pm)),
      (''width'', PInt (width pm)),
      (''height'', PInt (height pm))]"

text \<open>Lines 261-263: fill what the result does not have.\<close>

fun fill_defaults :: "pydict \<Rightarrow> pydict \<Rightarrow> pydict" where
  "fill_defaults [] result = result"
| "fill_defaults ((key, default_value) # ds) result =
     fill_defaults ds
       (if dict_get result key = PNone then dict_set key default_value result else result)"

text \<open>
  Lines 267-270. \<^verbatim>\<open>recommended.get(key)\<close> is evaluated only for a key the result
  does not have, and raises when \<^verbatim>\<open>recommended\<close> is not a dictionary.
\<close>

fun fill_recommended :: "pyval \<Rightarrow> string list \<Rightarrow> pydict \<Rightarrow> exn + pydict" where
  "fill_recommended recommended [] result = Inr result"
| "fill_recommended recommended (key # ks) result =
     (if dict_get result key = PNone then
        (case recommended of
           PDict r \<Rightarrow>
             fill_recommended recommended ks
               (if dict_get r key \<noteq> PNone then dict_set key (dict_get r key) result
                else result)
         | _ \<Rightarrow> Inl AttributeError)
      else fill_recommended recommended ks result)"

definition research_fill ::
  "pydict option \<Rightarrow> GenerationMetadata option \<Rightarrow> pydict \<Rightarrow> exn + pydict" where
  "research_fill research_result previous_metadata result =
     (if truthy_opt research_result \<and> previous_metadata = None then
        fill_recommended
          (dict_get_default (the research_result) ''recommended_settings'' (PDict []))
          SD_PARAM_KEYS result
      else Inr result)"

text \<open>Lines 280-289: the follow-up override.\<close>

definition previous_override :: "GenerationMetadata option \<Rightarrow> pydict \<Rightarrow> pydict" where
  "previous_override previous_metadata result =
     (case previous_metadata of
        None \<Rightarrow> result
      | Some pm \<Rightarrow>
          (let r1 = override_with (getattr_metadata pm) SD_PARAM_KEYS result;
               r2 = (if prompt pm \<noteq> [] then dict_set ''prompt'' (PStr (prompt pm)) r1 else r1)
           in (case negative_prompt pm of
                 None \<Rightarrow> r2
               | Some n \<Rightarrow>
                   if n \<noteq> [] then dict_set ''negative_prompt'' (PStr n) r2 else r2)))"

text \<open>
  The value of \<^verbatim>\<open>global_settings and global_settings.get("default_prompt_suffix")\<close>
  when the settings are true, and \<^verbatim>\<open>None\<close> for the false \<^verbatim>\<open>global_settings\<close>.
\<close>

definition suffix_of :: "pydict option \<Rightarrow> pyval" where
  "suffix_of global_settings =
     (if truthy_opt global_settings
      then dict_get (the global_settings) ''default_prompt_suffix'' else PNone)"

text \<open>Lines 292-295: the default prompt suffix.\<close>

definition apply_suffix ::
  "(pyval \<Rightarrow> string) \<Rightarrow> pydict option \<Rightarrow> pydict \<Rightarrow> exn + pydict" where
  "apply_suffix fmt global_settings result =
     (if truthy (suffix_of global_settings) then
        (let suffix = suffix_of global_settings;
             p = dict_get_default result ''prompt'' (PStr [])
         in (case py_in suffix p of
               Inl e \<Rightarrow> Inl e
             | Inr found \<Rightarrow>
                 if \<not> found then
                   Inr (dict_set ''prompt''
                          (PStr (py_strip '', '' (py_format fmt p @ '', '' @ py_format fmt suffix)))
                          result)
                 else Inr result))
      else Inr result)"

definition DEFAULT_NEGATIVE_PROMPT :: string where
  "DEFAULT_NEGATIVE_PROMPT =
     ''worst quality, low quality, blurry, bad anatomy, bad hands, text, error, '' @
     ''missing fingers, extra digit, fewer digits, cropped, jpeg artifacts, '' @
     ''signature, watermark, username''"

text \<open>Lines 298-303.\<close>

definition negative_default :: "pydict \<Rightarrow> pydict" where
  "negative_default result =
     (if \<not> truthy (dict_get result ''negative_prompt'')
      then dict_set ''negative_prompt'' (PStr DEFAULT_NEGATIVE_PROMPT) result
      else result)"

text \<open>
  Line 307: \<^verbatim>\<open>global_settings and global_settings.get("seed") is not None\<close>,
  the global settings give an explicit seed.
\<close>

definition explicit_seed :: "pydict option \<Rightarrow> bool" where
  "explicit_seed global_settings =
     (truthy_opt global_settings \<and> dict_get (the global_settings) ''seed'' \<noteq> PNone)"

text \<open>
  Lines 307-310. The draw of \<^verbatim>\<open>random.randint(0, 2**32 - 1)\<close> is the argument
  \<open>rnd\<close>, a 32-bit word.
\<close>

definition seed_default :: "pydict option \<Rightarrow> 32 word \<Rightarrow> pydict \<Rightarrow> pydict" where
  "seed_default global_settings rnd result =
     (if explicit_seed global_settings
      then dict_set ''seed'' (dict_get (the global_settings) ''seed'') result
      else if \<not> dict_has result ''seed'' \<or> eq_minus_one (dict_get result ''seed'')
      then dict_set ''seed'' (PInt (uint rnd)) result
      else result)"

text \<open>\<^verbatim>\<open>PromptAgent._apply_defaults\<close>, lines 209-312.\<close>

definition apply_defaults ::
  "(pyval \<Rightarrow> string) \<Rightarrow> Settings \<Rightarrow> pydict \<Rightarrow> GenerationMetadata option \<Rightarrow>
   pydict option \<Rightarrow> pydict option \<Rightarrow> 32 word \<Rightarrow> exn + pydict" where
  "apply_defaults fmt st result previous_metadata global_settings research_result rnd =
     (case global_override global_settings (base_defaults st) of
        Inl e \<Rightarrow> Inl e
      | Inr defaults0 \<Rightarrow>
          (let defaults =
                 (case previous_metadata of
                    None \<Rightarrow> defaults0
                  | Some pm \<Rightarrow> dict_update defaults0 (previous_items pm));
               r1 = fill_defaults defaults result
           in (case research_fill research_result previous_metadata r1 of
                 Inl e \<Rightarrow> Inl e
               | Inr r2 \<Rightarrow>
                   (case global_override global_settings r2 of
                      Inl e \<Rightarrow> Inl e
                    | Inr r3 \<Rightarrow>
                        (case apply_suffix fmt global_settings
                                (previous_override previous_metadata r3) of
                           Inl e \<Rightarrow> Inl e
                         | Inr r5 \<Rightarrow>
                             Inr (seed_default global_settings rnd
                                    (negative_default r5)))))))"

section \<open>Prompt generation\<close>

definition WEB_RESEARCH_SKIP_KEYWORDS :: "string list" where
  \<comment> \<open>the four Japanese opt-out phrases of line 44, as UTF-8 bytes\<close>
  "WEB_RESEARCH_SKIP_KEYWORDS =
     [[CHR 0xE3, CHR 0x83, CHR 0xAA, CHR 0xE3, CHR 0x82, CHR 0xB5, CHR 0xE3, CHR 0x83, CHR 0xBC,
       CHR 0xE3, CHR 0x83, CHR 0x81, CHR 0xE3, CHR 0x81, CHR 0xAA, CHR 0xE3, CHR 0x81, CHR 0x97],
      [CHR 0xE3, CHR 0x83, CHR 0xAA, CHR 0xE3, CHR 0x82, CHR 0xB5, CHR 0xE3, CHR 0x83, CHR 0xBC,
       CHR 0xE3, CHR 0x83, CHR 0x81, CHR 0xE3, CHR 0x81, CHR 0x97, CHR 0xE3, CHR 0x81, CHR 0xAA,
       CHR 0xE3, CHR 0x81, CHR 0x84],
      [CHR 0xE8, CHR 0xAA, CHR 0xBF, CHR 0xE3, CHR 0x81, CHR 0xB9, CHR 0xE3, CHR 0x81, CHR 0xAA,
       CHR 0xE3, CHR 0x81, CHR 0x84, CHR 0xE3, CHR 0x81, CHR 0xA7],
      [CHR 0xE3, CHR 0x81, CHR 0x99, CHR 0xE3, CHR 0x81, CHR 0x90, CHR 0xE3, CHR 0x81, CHR 0xAB,
       CHR 0xE7, CHR 0x94, CHR 0x9F, CHR 0xE6, CHR 0x88, CHR 0x90]]"

text \<open>
  \<^verbatim>\<open>PromptAgent._perform_web_research\<close>, lines 314-345. The collaborators are
  arguments: \<open>service_init\<close> is what constructing the \<^verbatim>\<open>WebResearchService\<close>
  raises, if the service is constructed by this call and the constructor raises (lines
  324-327, outside the \<^verbatim>\<open>try\<close>); \<open>research\<close> is
  \<^verbatim>\<open>research_best_practices\<close>, which returns a dictionary or \<^verbatim>\<open>None\<close>, or
  raises.
\<close>

definition perform_web_research ::
  "exn option \<Rightarrow> (string \<Rightarrow> exn + pydict option) \<Rightarrow> string \<Rightarrow> exn + pydict option" where
  "perform_web_research service_init research user_instruction =
     (case service_init of
        Some e \<Rightarrow> Inl e
      | None \<Rightarrow>
          if list_ex (\<lambda>keyword. str_contains keyword user_instruction)
               WEB_RESEARCH_SKIP_KEYWORDS
          then Inr None
          else (case research user_instruction of
                  Inl e \<Rightarrow> Inr None
                | Inr research_result \<Rightarrow> Inr research_result))"

text \<open>
  \<^verbatim>\<open>len(result['prompt'])\<close> in the log call of line 128: the key must be there and
  its value must have a length.
\<close>

definition log_prompt_length :: "pydict \<Rightarrow> exn + unit" where
  "log_prompt_length result =
     (case map_of result ''prompt'' of
        None \<Rightarrow> Inl KeyError
      | Some (PStr s) \<Rightarrow> Inr ()
      | Some (PDict d) \<Rightarrow> Inr ()
      | Some _ \<Rightarrow> Inl TypeError)"

text \<open>Lines 134-138: an \<^verbatim>\<open>LLMAPIError\<close> passes, anything else is wrapped in one.\<close>

fun wrap_llm_error :: "exn + 'a \<Rightarrow> exn + 'a" where
  "wrap_llm_error (Inr x) = Inr x"
| "wrap_llm_error (Inl (LLMAPIError m)) = Inl (LLMAPIError m)"
| "wrap_llm_error (Inl e) = Inl (LLMAPIError ''Failed to generate prompt'')"

text \<open>
  \<^verbatim>\<open>PromptAgent.generate_prompt\<close>, lines 57-138. The argument \<open>llm\<close> stands for
  lines 90-116: building the two prompts from the instruction, the previous metadata, the
  global settings and the research result, the chat call, \<^verbatim>\<open>json.loads\<close>, the
  validation by \<^verbatim>\<open>PromptGenerationResponse\<close> and \<^verbatim>\<open>model_dump\<close>; it returns
  the dumped dictionary or raises.
\<close>

definition generate_prompt ::
  "(pyval \<Rightarrow> string) \<Rightarrow> Settings \<Rightarrow> exn option \<Rightarrow> (string \<Rightarrow> exn + pydict option) \<Rightarrow>
   (string \<Rightarrow> GenerationMetadata option \<Rightarrow> pydict option \<Rightarrow> pydict option \<Rightarrow> exn + pydict) \<Rightarrow>
   string \<Rightarrow> GenerationMetadata option \<Rightarrow> pydict option \<Rightarrow> bool \<Rightarrow> 32 word \<Rightarrow> exn + pydict" where
  "generate_prompt fmt st service_init research llm user_instruction previous_metadata
     global_settings web_research rnd =
     wrap_llm_error
       (case (if web_research \<and> previous_metadata = None
              then perform_web_research service_init research user_instruction
              else Inr None) of
          Inl e \<Rightarrow> Inl e
        | Inr research_result \<Rightarrow>
            (case llm user_instruction previous_metadata global_settings research_result of
               Inl e \<Rightarrow> Inl e
             | Inr result \<Rightarrow>
                 (case apply_defaults fmt st result previous_metadata global_settings
                         research_result rnd of
                    Inl e \<Rightarrow> Inl e
                  | Inr result1 \<Rightarrow>
                      (let result2 =
                             (if truthy_opt research_result
                              then dict_set ''web_research'' (PDict (the research_result)) result1
                              else result1)
                       in (case log_prompt_length result2 of
                             Inl e \<Rightarrow> Inl e
                           | Inr u \<Rightarrow> Inr result2)))))"

section \<open>The queue manager\<close>

text \<open>
  \<^verbatim>\<open>src/services/queue_manager.py\<close>. The persisted table of requests is a list
  of rows; the timestamps of a row are left out. The commit of the recovery and the commit
  of \<open>PROCESSING\<close> at the head of a pipeline are taken to succeed; a commit in the body
  of a pipeline can fail, and then the commit of its error handler fails too (see
  \<open>outcome\<close>).
\<close>

datatype RequestStatus = PENDING | PROCESSING | COMPLETED | FAILED

record GenerationRequest =
  id' :: string
  guild_id :: string
  user_id :: string
  thread_id :: string
  original_instruction :: string
  web_research :: bool
  status :: RequestStatus
  error_message :: "string option"

record QueuedTask =
  priority :: int
  request_id :: string
  use_gemini :: bool
  use_xai :: bool

text \<open>
  \<^verbatim>\<open>@dataclass(order=True)\<close> compares two tasks as the tuples of their fields, in
  the order of declaration; strings compare lexicographically and \<^verbatim>\<open>False < True\<close>.
  Python compares strings by code point and the model by byte; on the identifiers of the
  requests, which are UUIDs in ASCII, the two orders are the same.
\<close>

definition task_key :: "QueuedTask \<Rightarrow> int \<times> string \<times> bool \<times> bool" where
  "task_key t = (priority t, request_id t, use_gemini t, use_xai t)"

definition task_less :: "QueuedTask \<Rightarrow> QueuedTask \<Rightarrow> bool" where
  "task_less a b = (task_key a < task_key b)"

subsection \<open>The priority queue\<close>

text \<open>
  \<^verbatim>\<open>asyncio.PriorityQueue\<close>: \<^verbatim>\<open>put\<close> adds an item and counts it as
  unfinished, \<^verbatim>\<open>get\<close> takes a least item out, \<^verbatim>\<open>task_done\<close> counts one
  item as finished and raises \<^verbatim>\<open>ValueError\<close> when none is unfinished. Two tasks
  that neither is less than the other are equal in every field, so which of them
  \<^verbatim>\<open>get\<close> returns cannot be observed, and the place of an item inside the heap
  is not modelled. A \<^verbatim>\<open>get\<close> on the empty queue waits: \<open>None\<close>.
\<close>

record PriorityQueue =
  heap :: "QueuedTask list"
  unfinished_tasks :: nat

definition queue_put :: "QueuedTask \<Rightarrow> PriorityQueue \<Rightarrow> PriorityQueue" where
  "queue_put t q = q\<lparr>heap := heap q @ [t], unfinished_tasks := unfinished_tasks q + 1\<rparr>"

fun least_task :: "QueuedTask \<Rightarrow> QueuedTask list \<Rightarrow> QueuedTask" where
  "least_task t [] = t"
| "least_task t (u # us) = least_task (if task_less u t then u else t) us"

definition queue_get :: "PriorityQueue \<Rightarrow> (QueuedTask \<times> PriorityQueue) option" where
  "queue_get q =
     (case heap q of
        [] \<Rightarrow> None
      | t # ts \<Rightarrow> (let m = least_task t ts in Some (m, q\<lparr>heap := remove1 m (heap q)\<rparr>)))"

definition task_done :: "PriorityQueue \<Rightarrow> PriorityQueue option" where
  "task_done q =
     (if unfinished_tasks q = 0 then None
      else Some (q\<lparr>unfinished_tasks := unfinished_tasks q - 1\<rparr>))"

subsection \<open>The manager and its state\<close>

datatype provider = SD | Gemini | XAI

text \<open>
  Where the worker coroutine stands: at the head of its loop; between taking a task from
  the queue and the commit of \<open>PROCESSING\<close> (the pipeline opens its session and loads
  the row there, and other coroutines run meanwhile); inside the pipeline of a task after
  \<open>PROCESSING\<close> was committed; or after the end of the loop.
\<close>

datatype worker_state = Waiting | Dequeued QueuedTask | Processing QueuedTask | Ended

text \<open>
  What the manager does besides changing the queue and the table: the log record at the
  start of a pipeline, the record of \<^verbatim>\<open>logger.exception\<close> in the worker loop with
  its \<^verbatim>\<open>str(e)\<close>, and a sleep with its length in seconds.
\<close>

datatype effect =
    LogProcessing provider string
  | LogWorkerError string
  | Sleep rat

record QueueManager =
  settings :: Settings
  is_running :: bool
  worker_task :: "worker_state option"
  queue :: PriorityQueue
  requests :: "GenerationRequest list"
  effects :: "effect list"

text \<open>\<^verbatim>\<open>QueueManager.__init__\<close>, over the table as the new process finds it.\<close>

definition QueueManager_init :: "Settings \<Rightarrow> GenerationRequest list \<Rightarrow> QueueManager" where
  "QueueManager_init st rows =
     \<lparr>settings = st, is_running = False, worker_task = None,
      queue = \<lparr>heap = [], unfinished_tasks = 0\<rparr>, requests = rows, effects = []\<rparr>"

text \<open>\<^verbatim>\<open>_get_request\<close>: the row with this primary key, if any.\<close>

definition get_request :: "GenerationRequest list \<Rightarrow> string \<Rightarrow> GenerationRequest option" where
  "get_request rows rid = find (\<lambda>r. id' r = rid) rows"

text \<open>Committing a change of the loaded row.\<close>

definition update_request ::
  "string \<Rightarrow> (GenerationRequest \<Rightarrow> GenerationRequest) \<Rightarrow> GenerationRequest list \<Rightarrow>
   GenerationRequest list" where
  "update_request rid f rows = map (\<lambda>r. if id' r = rid then f r else r) rows"

text \<open>Lines 123-169: the three ways to enqueue.\<close>

definition enqueue_generation :: "string \<Rightarrow> int \<Rightarrow> QueueManager \<Rightarrow> QueueManager" where
  "enqueue_generation rid prio s =
     s\<lparr>queue := queue_put
          \<lparr>priority = - prio, request_id = rid, use_gemini = False, use_xai = False\<rparr>
          (queue s)\<rparr>"

definition enqueue_gemini_generation :: "string \<Rightarrow> int \<Rightarrow> QueueManager \<Rightarrow> QueueManager" where
  "enqueue_gemini_generation rid prio s =
     s\<lparr>queue := queue_put
          \<lparr>priority = - prio, request_id = rid, use_gemini = True, use_xai = False\<rparr>
          (queue s)\<rparr>"

definition enqueue_xai_generation :: "string \<Rightarrow> int \<Rightarrow> QueueManager \<Rightarrow> QueueManager" where
  "enqueue_xai_generation rid prio s =
     s\<lparr>queue := queue_put
          \<lparr>priority = - prio, request_id = rid, use_gemini = False, use_xai = True\<rparr>
          (queue s)\<rparr>"

text \<open>Lines 83-102: the loop over the selected rows, committed together at its end.\<close>

fun restore_loop :: "GenerationRequest list \<Rightarrow> QueueManager \<Rightarrow> QueueManager" where
  "restore_loop [] s = s"
| "restore_loop (request # rs) s =
     restore_loop rs
       (s\<lparr>requests := update_request (id' request) (\<lambda>r. r\<lparr>status := PENDING\<rparr>) (requests s),
          queue := queue_put
            \<lparr>priority = 0, request_id = id' request, use_gemini = False, use_xai = False\<rparr>
            (queue s)\<rparr>)"

definition restore_pending_requests :: "QueueManager \<Rightarrow> QueueManager" where
  "restore_pending_requests s =
     restore_loop
       (filter (\<lambda>r. status r = PENDING \<or> status r = PROCESSING) (requests s)) s"

text \<open>Lines 68-81.\<close>

definition start :: "QueueManager \<Rightarrow> QueueManager" where
  "start s =
     (if is_running s then s
      else (restore_pending_requests (s\<lparr>is_running := True\<rparr>))\<lparr>worker_task := Some Waiting\<rparr>)"

text \<open>Lines 104-121: the worker is cancelled wherever it stands.\<close>

definition stop :: "QueueManager \<Rightarrow> QueueManager" where
  "stop s =
     (if \<not> is_running s then s
      else s\<lparr>is_running := False,
             worker_task := (case worker_task s of None \<Rightarrow> None | Some w \<Rightarrow> Some Ended)\<rparr>)"

subsection \<open>The worker\<close>

text \<open>Lines 181-186: which pipeline a task goes to.\<close>

definition dispatch :: "QueuedTask \<Rightarrow> provider" where
  "dispatch task = (if use_gemini task then Gemini else if use_xai task then XAI else SD)"

text \<open>
  What the body of a pipeline does after \<open>PROCESSING\<close> was committed (settings,
  prompt generation, provider call, storage):
  \<^item> it succeeds;
  \<^item> it raises, outside a commit, an \<^verbatim>\<open>ApplicationError\<close> with its
    \<^verbatim>\<open>message\<close> or another \<^verbatim>\<open>Exception\<close> with its \<^verbatim>\<open>str(e)\<close>
    (\<open>Fails\<close>): the session can still commit;
  \<^item> one of its commits (lines 289, 352 and 356, and their siblings) raises because the
    flush fails, for example the insert of the metadata row with a null
    \<^verbatim>\<open>sampler\<close> (\<open>FlushFails\<close>): the session is left inactive until a
    rollback, the handlers of lines 360-372 do not roll back, and their own
    \<^verbatim>\<open>session.commit()\<close> raises \<^verbatim>\<open>PendingRollbackError\<close>, whose
    \<^verbatim>\<open>str(e)\<close> is the argument (the same happens when the body raises outside
    a commit and the flush of the handler's commit fails);
  \<^item> the task is cancelled (\<^verbatim>\<open>asyncio.CancelledError\<close> is not an
    \<^verbatim>\<open>Exception\<close>).
\<close>

datatype failure = AppError string | OtherError string

datatype outcome = Succeeds | Fails failure | FlushFails string | Cancelled

fun failure_message :: "failure \<Rightarrow> string" where
  "failure_message (AppError m) = m"
| "failure_message (OtherError m) = m"

text \<open>Lines 194-197: the handler of the worker loop; the loop goes on.\<close>

definition worker_error :: "string \<Rightarrow> QueueManager \<Rightarrow> QueueManager" where
  "worker_error msg s =
     s\<lparr>effects := effects s @
          [LogWorkerError (''Error in worker loop: '' @ msg),
           Sleep (queue_error_retry_interval (settings s))],
       worker_task := Some Waiting\<rparr>"

text \<open>Lines 175-178: the test of the loop and \<^verbatim>\<open>queue.get()\<close>.\<close>

definition worker_get :: "QueueManager \<Rightarrow> QueueManager" where
  "worker_get s =
     (if worker_task s = Some Waiting then
        if \<not> is_running s then s\<lparr>worker_task := Some Ended\<rparr>
        else
          (case queue_get (queue s) of
             None \<Rightarrow> s
           | Some (task, q) \<Rightarrow> s\<lparr>queue := q, worker_task := Some (Dequeued task)\<rparr>)
      else s)"

text \<open>
  The dispatch and the head of the pipeline (the same in the three pipelines, lines
  209-227, 460-478 and 599-617): load the row, raise \<^verbatim>\<open>DatabaseError\<close> when
  there is none, commit \<open>PROCESSING\<close>.
\<close>

definition worker_head :: "QueueManager \<Rightarrow> QueueManager" where
  "worker_head s =
     (case worker_task s of
        Some (Dequeued task) \<Rightarrow>
          (case get_request (requests s) (request_id task) of
             None \<Rightarrow> worker_error (''Request not found: '' @ request_id task) s
           | Some request \<Rightarrow>
               s\<lparr>requests :=
                   update_request (id' request) (\<lambda>r. r\<lparr>status := PROCESSING\<rparr>)
                     (requests s),
                 effects := effects s @ [LogProcessing (dispatch task) (request_id task)],
                 worker_task := Some (Processing task)\<rparr>)
      | _ \<Rightarrow> s)"

text \<open>The first half of an iteration, up to the commit of \<open>PROCESSING\<close>.\<close>

definition worker_begin :: "QueueManager \<Rightarrow> QueueManager" where
  "worker_begin s = worker_head (worker_get s)"

text \<open>
  The second half: the end of the pipeline (lines 354-372, 569-589 and 701-724) and of the
  iteration (lines 188-197). After a failed flush the handler sets the status and the
  message on the loaded row, its commit raises, nothing is written, and the exception of
  the commit is the one that reaches the worker loop.
\<close>

definition worker_end :: "outcome \<Rightarrow> QueueManager \<Rightarrow> QueueManager" where
  "worker_end oc s =
     (case worker_task s of
        Some (Processing task) \<Rightarrow>
          (case oc of
             Succeeds \<Rightarrow>
               (let s1 = s\<lparr>requests :=
                             update_request (request_id task) (\<lambda>r. r\<lparr>status := COMPLETED\<rparr>)
                               (requests s)\<rparr>
                in (case task_done (queue s1) of
                      None \<Rightarrow> worker_error ''task_done() called too many times'' s1
                    | Some q \<Rightarrow> s1\<lparr>queue := q, worker_task := Some Waiting\<rparr>))
           | Fails f \<Rightarrow>
               worker_error (failure_message f)
                 (s\<lparr>requests :=
                      update_request (request_id task)
                        (\<lambda>r. r\<lparr>status := FAILED, error_message := Some (failure_message f)\<rparr>)
                        (requests s)\<rparr>)
           | FlushFails m \<Rightarrow> worker_error m s
           | Cancelled \<Rightarrow> s\<lparr>worker_task := Some Ended\<rparr>)
      | _ \<Rightarrow> s)"

definition worker_iteration :: "outcome \<Rightarrow> QueueManager \<Rightarrow> QueueManager" where
  "worker_iteration oc s = worker_end oc (worker_begin s)"

text \<open>
  The loop of lines 175-197, run for one iteration per given outcome; an iteration that
  finds the queue empty waits and changes nothing.
\<close>

fun worker_loop :: "outcome list \<Rightarrow> QueueManager \<Rightarrow> QueueManager" where
  "worker_loop [] s = s"
| "worker_loop (oc # ocs) s = worker_loop ocs (worker_iteration oc s)"

text \<open>The requests whose pipeline was started, in this order.\<close>

fun processed :: "effect list \<Rightarrow> string list" where
  "processed [] = []"
| "processed (LogProcessing p rid # es) = rid # processed es"
| "processed (e # es) = processed es"

subsection \<open>Runs of the core's operations\<close>

text \<open>
  An admission point creates a row (status \<open>PENDING\<close> and no error message are the
  defaults of the columns) and then enqueues its identifier. The parts of a worker
  iteration between which the worker waits for the database or a provider are steps of
  their own, so that what other coroutines can see and do between them belongs to the
  run. \<^verbatim>\<open>enqueue\<close> does not wait (the queue is unbounded) and is one step;
  \<^verbatim>\<open>start()\<close> and \<^verbatim>\<open>stop()\<close> are one step each: no other
  operation is interleaved with their recovery and cancellation.
\<close>

datatype operation =
    CreateRequest GenerationRequest
  | Start
  | Stop
  | EnqueueGeneration string int
  | EnqueueGemini string int
  | EnqueueXai string int
  | WorkerGet
  | WorkerHead
  | WorkerEnd outcome

definition create_request :: "GenerationRequest \<Rightarrow> QueueManager \<Rightarrow> QueueManager" where
  "create_request r s =
     s\<lparr>requests := requests s @ [r\<lparr>status := PENDING, error_message := None\<rparr>]\<rparr>"

fun apply_operation :: "operation \<Rightarrow> QueueManager \<Rightarrow> QueueManager" where
  "apply_operation (CreateRequest r) s = create_request r s"
| "apply_operation Start s = start s"
| "apply_operation Stop s = stop s"
| "apply_operation (EnqueueGeneration rid prio) s = enqueue_generation rid prio s"
| "apply_operation (EnqueueGemini rid prio) s = enqueue_gemini_generation rid prio s"
| "apply_operation (EnqueueXai rid prio) s = enqueue_xai_generation rid prio s"
| "apply_operation WorkerGet s = worker_get s"
| "apply_operation WorkerHead s = worker_head s"
| "apply_operation (WorkerEnd oc) s = worker_end oc s"

fun run :: "operation list \<Rightarrow> QueueManager \<Rightarrow> QueueManager" where
  "run [] s = s"
| "run (op # ops) s = run ops (apply_operation op s)"

text \<open>
  The discipline of \<^verbatim>\<open>discord_bot.py\<close>. Its admission points create a row
  under a new identifier and enqueue an identifier when its row is \<open>PENDING\<close> and no
  task for it is in the queue or in the hands of the worker. It starts the manager once,
  before any admission:
  \<^verbatim>\<open>start()\<close> is called on a running manager, where it does nothing, or on a
  manager whose queue is empty (a new one, or one stopped with nothing left in the queue);
  \<^verbatim>\<open>stop()\<close> keeps the queue, and a \<^verbatim>\<open>start()\<close> after it enqueues
  every row that is not finished once more.
\<close>

definition held_by_worker :: "QueueManager \<Rightarrow> string \<Rightarrow> bool" where
  "held_by_worker s rid =
     (case worker_task s of
        Some (Dequeued t) \<Rightarrow> request_id t = rid
      | Some (Processing t) \<Rightarrow> request_id t = rid
      | _ \<Rightarrow> False)"

definition enqueue_ok :: "string \<Rightarrow> QueueManager \<Rightarrow> bool" where
  "enqueue_ok rid s =
     (list_ex (\<lambda>r. id' r = rid \<and> status r = PENDING) (requests s)
      \<and> rid \<notin> set (map request_id (heap (queue s)))
      \<and> \<not> held_by_worker s rid)"

fun admissible :: "operation \<Rightarrow> QueueManager \<Rightarrow> bool" where
  "admissible (CreateRequest r) s = (id' r \<notin> set (map id' (requests s)))"
| "admissible (EnqueueGeneration rid prio) s = enqueue_ok rid s"
| "admissible (EnqueueGemini rid prio) s = enqueue_ok rid s"
| "admissible (EnqueueXai rid prio) s = enqueue_ok rid s"
| "admissible Start s = (is_running s \<or> heap (queue s) = [])"
| "admissible op s = True"

fun valid_run :: "operation list \<Rightarrow> QueueManager \<Rightarrow> bool" where
  "valid_run [] s = True"
| "valid_run (op # ops) s = (admissible op s \<and> valid_run ops (apply_operation op s))"

text \<open>The two directions of "an error message is set if and only if the status is FAILED".\<close>

definition failed_has_message :: "GenerationRequest list \<Rightarrow> bool" where
  "failed_has_message rows =
     list_all (\<lambda>r. status r = FAILED \<longrightarrow> error_message r \<noteq> None) rows"

definition message_iff_failed :: "GenerationRequest list \<Rightarrow> bool" where
  "message_iff_failed rows =
     list_all (\<lambda>r. (error_message r \<noteq> None) = (status r = FAILED)) rows"

text \<open>
  The three operations that enqueue a task for a request.
\<close>

definition enqueue_ops :: "string \<Rightarrow> int \<Rightarrow> operation set" where
  "enqueue_ops rid prio = {EnqueueGeneration rid prio, EnqueueGemini rid prio, EnqueueXai rid prio}"

text \<open>
  What holds in every state of a run that keeps the discipline: the identifiers of the
  rows and of the queued tasks are distinct, an error message is set exactly on the
  failed rows, the row of a queued task is \<open>PENDING\<close>, the task the worker has taken
  is not in the queue and its row is \<open>PENDING\<close>, and the task in the pipeline is not
  in the queue and has a row, which is \<open>PROCESSING\<close>.
\<close>

definition consistent :: "QueueManager \<Rightarrow> bool" where
  "consistent s =
     (distinct (map id' (requests s))
      \<and> message_iff_failed (requests s)
      \<and> distinct (map request_id (heap (queue s)))
      \<and> (\<forall>t\<in>set (heap (queue s)). \<forall>r\<in>set (requests s).
            id' r = request_id t \<longrightarrow> status r = PENDING)
      \<and> (\<forall>t. worker_task s = Some (Dequeued t) \<longrightarrow>
            request_id t \<notin> set (map request_id (heap (queue s)))
            \<and> (\<forall>r\<in>set (requests s). id' r = request_id t \<longrightarrow> status r = PENDING))
      \<and> (\<forall>t. worker_task s = Some (Processing t) \<longrightarrow>
            request_id t \<notin> set (map request_id (heap (queue s)))
            \<and> (\<exists>r\<in>set (requests s). id' r = request_id t \<and> status r = PROCESSING)))"

section \<open>Observations and examples\<close>

text \<open>A result of the resolver with the seed taken out.\<close>

definition without_seed :: "exn + pydict \<Rightarrow> exn + pydict" where
  "without_seed res =
     (case res of Inl e \<Rightarrow> Inl e | Inr out \<Rightarrow> Inr (AList.delete ''seed'' out))"

definition example_settings :: Settings where
  "example_settings =
     \<lparr>default_steps = 20, default_cfg_scale = 7, default_sampler = None,
      default_scheduler = None, default_width = 512, default_height = 512,
      queue_error_retry_interval = 5\<rparr>"

definition example_fmt :: "pyval \<Rightarrow> string" where
  "example_fmt v = []"

definition example_llm_result :: pydict where
  "example_llm_result =
     [(''prompt'', PStr ''test''), (''negative_prompt'', PStr ''neg''),
      (''steps'', PInt 20), (''cfg_scale'', PFloat 8), (''sampler'', PStr ''DDIM''),
      (''scheduler'', PStr ''Exponential''), (''width'', PInt 768), (''height'', PInt 768)]"

definition example_previous :: GenerationMetadata where
  "example_previous =
     \<lparr>prompt = ''prev prompt'', negative_prompt = None, steps = 30, cfg_scale = 15 / 2,
      sampler = ''Euler a'', scheduler = None, width = 512, height = 512\<rparr>"

definition example_previous_full :: GenerationMetadata where
  "example_previous_full =
     \<lparr>prompt = ''prev prompt'', negative_prompt = Some ''prev neg'', steps = 30,
      cfg_scale = 15 / 2, sampler = ''Euler a'', scheduler = Some ''Karras'', width = 512,
      height = 512\<rparr>"

definition example_global_settings :: pydict where
  "example_global_settings =
     [(''default_prompt_suffix'', PStr ''masterpiece''),
      (''default_sd_params'', PDict [(''steps'', PInt 45)]),
      (''seed'', PNone)]"

definition example_seeded_settings :: pydict where
  "example_seeded_settings =
     [(''default_sd_params'', PDict [(''steps'', PInt 45)]), (''seed'', PInt 42)]"

definition example_llm ::
  "string \<Rightarrow> GenerationMetadata option \<Rightarrow> pydict option \<Rightarrow> pydict option \<Rightarrow> exn + pydict" where
  "example_llm instruction pm gs rr = Inr example_llm_result"

definition example_row :: "string \<Rightarrow> RequestStatus \<Rightarrow> GenerationRequest" where
  "example_row rid st =
     \<lparr>id' = rid, guild_id = ''guild'', user_id = ''user'', thread_id = ''thread'',
      original_instruction = ''a red fox in snow'', web_research = False, status = st,
      error_message = None\<rparr>"

definition example_failing_research :: "string \<Rightarrow> exn + pydict option" where
  "example_failing_research instruction = Inl (PyException ''HTTP 503'')"

definition example_rows :: "GenerationRequest list" where
  "example_rows =
     [example_row ''p1'' PROCESSING, example_row ''c'' COMPLETED, example_row ''p2'' PROCESSING]"

definition example_running :: QueueManager where
  "example_running =
     create_request (example_row ''r4'' PENDING)
       (create_request (example_row ''r3'' PENDING)
          (create_request (example_row ''r2'' PENDING)
             (create_request (example_row ''r1'' PENDING)
                (start (QueueManager_init example_settings [])))))"

definition example_one_queued :: QueueManager where
  "example_one_queued = enqueue_generation ''r1'' 0 example_running"

definition example_interrupted :: QueueManager where
  "example_interrupted =
     worker_begin
       (enqueue_gemini_generation ''g1'' 7
          (create_request (example_row ''g1'' PENDING)
             (start (QueueManager_init example_settings []))))"

definition example_ops :: "operation list" where
  "example_ops =
     [Start,
      CreateRequest (example_row ''r1'' PENDING), EnqueueGeneration ''r1'' 0,
      WorkerGet, WorkerHead, WorkerEnd (Fails (AppError ''SD API timeout'')),
      CreateRequest (example_row ''r2'' PENDING), EnqueueXai ''r2'' 1,
      WorkerGet, WorkerHead, WorkerEnd (FlushFails ''PendingRollbackError''),
      Stop, Start,
      WorkerGet, WorkerHead, WorkerEnd Succeeds]"

definition example_double_enqueue :: "operation list" where
  "example_double_enqueue =
     [Start,
      CreateRequest (example_row ''r1'' PENDING), EnqueueGeneration ''r1'' 0,
      EnqueueGeneration ''r1'' 0,
      WorkerGet, WorkerHead, WorkerEnd (Fails (OtherError ''boom'')),
      WorkerGet, WorkerHead, WorkerEnd Succeeds]"

definition example_restart :: "operation list" where
  "example_restart =
     [Start,
      CreateRequest (example_row ''r1'' PENDING), EnqueueGeneration ''r1'' 0,
      Stop, Start,
      WorkerGet, WorkerHead, WorkerEnd (Fails (OtherError ''boom'')),
      WorkerGet, WorkerHead, WorkerEnd Succeeds]"

definition example_llm_null_sampler :: pydict where
  "example_llm_null_sampler =
     [(''prompt'', PStr ''a red fox''), (''negative_prompt'', PStr ''blurry''),
      (''steps'', PInt 20), (''cfg_scale'', PFloat 7), (''sampler'', PNone),
      (''scheduler'', PNone), (''width'', PInt 512), (''height'', PInt 512)]"

section \<open>Properties of the parameter resolver\<close>

lemmas resolver_defs =
  apply_defaults_def global_override_def base_defaults_def previous_items_def dict_set_def
  dict_get_def dict_get_default_def research_fill_def previous_override_def SD_PARAM_KEYS_def
  getattr_metadata_def apply_suffix_def suffix_of_def negative_default_def seed_default_def
  explicit_seed_def dict_has_def get_sd_params_def py_strip_def DEFAULT_NEGATIVE_PROMPT_def

lemmas example_defs =
  example_settings_def example_llm_result_def example_previous_def example_previous_full_def
  example_global_settings_def example_seeded_settings_def example_fmt_def

lemma dict_get_dict_set:
  "dict_get (dict_set k v d) k' = (if k' = k then v else dict_get d k')"
  by (simp add: dict_get_def dict_set_def update_conv')

lemma dict_get_override_with:
  "dict_get (override_with src ks tgt) k =
     (if k \<in> set ks \<and> src k \<noteq> PNone then src k else dict_get tgt k)"
  by (induction ks arbitrary: tgt) (auto simp: dict_get_dict_set)

lemma dict_get_apply_suffix:
  "apply_suffix fmt gs r = Inr r' \<Longrightarrow> k \<noteq> ''prompt'' \<Longrightarrow> dict_get r' k = dict_get r k"
  by (auto simp: apply_suffix_def Let_def dict_get_dict_set split: if_splits sum.splits)

lemma dict_get_negative_default:
  "k \<noteq> ''negative_prompt'' \<Longrightarrow> dict_get (negative_default r) k = dict_get r k"
  by (simp add: negative_default_def dict_get_dict_set)

lemma dict_get_seed_default:
  "k \<noteq> ''seed'' \<Longrightarrow> dict_get (seed_default gs rnd r) k = dict_get r k"
  by (simp add: seed_default_def dict_get_dict_set)

lemma sd_key_cases:
  "k \<in> set SD_PARAM_KEYS \<Longrightarrow> k \<noteq> ''prompt'' \<and> k \<noteq> ''negative_prompt'' \<and> k \<noteq> ''seed''"
  by (auto simp: SD_PARAM_KEYS_def)

text \<open>The stages of a resolution that returns.\<close>

lemma apply_defaults_InrD:
  assumes "apply_defaults fmt st result pm gs rr rnd = Inr out"
  obtains d0 r2 r3 r5 where
    "global_override gs (base_defaults st) = Inr d0"
    "global_override gs r2 = Inr r3"
    "apply_suffix fmt gs (previous_override pm r3) = Inr r5"
    "out = seed_default gs rnd (negative_default r5)"
  using assms by (auto simp: apply_defaults_def Let_def split: sum.splits)

lemma previous_override_keys:
  "dict_get (previous_override (Some pm) r) ''steps'' = PInt (steps pm)"
  "dict_get (previous_override (Some pm) r) ''cfg_scale'' = PFloat (cfg_scale pm)"
  "dict_get (previous_override (Some pm) r) ''sampler'' = PStr (sampler pm)"
  "dict_get (previous_override (Some pm) r) ''width'' = PInt (width pm)"
  "dict_get (previous_override (Some pm) r) ''height'' = PInt (height pm)"
  "scheduler pm = Some s \<Longrightarrow> dict_get (previous_override (Some pm) r) ''scheduler'' = PStr s"
  "negative_prompt pm = Some n \<Longrightarrow> n \<noteq> [] \<Longrightarrow>
     dict_get (previous_override (Some pm) r) ''negative_prompt'' = PStr n"
  "prompt pm \<noteq> [] \<Longrightarrow> dict_get (previous_override (Some pm) r) ''prompt'' = PStr (prompt pm)"
  by (simp_all add: previous_override_def Let_def dict_get_dict_set dict_get_override_with
      SD_PARAM_KEYS_def getattr_metadata_def split: option.splits)

lemma apply_suffix_none:
  assumes "apply_suffix fmt gs r = Inr r'" and "\<not> truthy (suffix_of gs)"
  shows "r' = r"
  using assms by (simp add: apply_suffix_def)

lemma apply_suffix_str:
  assumes "apply_suffix fmt gs r = Inr r'" and "dict_get r ''prompt'' = PStr p" and "p \<noteq> []"
    and "suffix_of gs = PStr t"
  shows "dict_get r' ''prompt'' =
           PStr (if str_contains t p then p else py_strip '', '' (p @ '', '' @ t))"
proof -
  have p: "dict_get_default r ''prompt'' (PStr []) = PStr p"
    using assms(2,3) by (auto simp: dict_get_def dict_get_default_def split: option.splits)
  show ?thesis
  proof (cases "t = []")
    case True
    with assms show ?thesis by (cases p) (simp_all add: apply_suffix_def)
  next
    case False
    with assms(1,2,4) p show ?thesis
      by (auto simp: apply_suffix_def Let_def dict_get_dict_set split: if_splits)
  qed
qed

lemma delete_seed_default:
  "AList.delete ''seed'' (seed_default gs rnd r) = AList.delete ''seed'' r"
  by (simp add: seed_default_def dict_set_def delete_update_same)

lemma seed_default_explicit:
  "explicit_seed gs \<Longrightarrow> seed_default gs rnd r = seed_default gs rnd' r"
  by (simp add: seed_default_def)

text \<open>
  C1, as the code has it. In a follow-up resolution that returns, the resolved steps,
  cfg_scale, sampler, width and height are those of the previous metadata, whatever the
  LLM result, the global settings and the research result say. The resolved scheduler is
  the previous one when the previous one is not null, and the resolved negative prompt is
  the previous one when that is neither null nor empty. When the previous prompt is not
  empty, the resolved prompt is the previous prompt if the global settings give no
  default prompt suffix or one that the previous prompt contains, and otherwise the
  previous prompt with the suffix appended after a comma and stripped of commas and
  spaces at both ends.
\<close>

theorem follow_up_resolution:
  assumes out: "apply_defaults fmt st result (Some pm) gs research_result rnd = Inr out"
  shows "dict_get out ''steps'' = PInt (steps pm)
       \<and> dict_get out ''cfg_scale'' = PFloat (cfg_scale pm)
       \<and> dict_get out ''sampler'' = PStr (sampler pm)
       \<and> dict_get out ''width'' = PInt (width pm)
       \<and> dict_get out ''height'' = PInt (height pm)
       \<and> (scheduler pm \<noteq> None \<longrightarrow> dict_get out ''scheduler'' = opt_str (scheduler pm))
       \<and> (negative_prompt pm \<noteq> None \<and> negative_prompt pm \<noteq> Some [] \<longrightarrow>
            dict_get out ''negative_prompt'' = opt_str (negative_prompt pm))
       \<and> (prompt pm \<noteq> [] \<and> \<not> truthy (suffix_of gs) \<longrightarrow>
            dict_get out ''prompt'' = PStr (prompt pm))
       \<and> (prompt pm \<noteq> [] \<and> suffix_of gs = PStr t \<and> str_contains t (prompt pm) \<longrightarrow>
            dict_get out ''prompt'' = PStr (prompt pm))
       \<and> (prompt pm \<noteq> [] \<and> suffix_of gs = PStr t \<and> \<not> str_contains t (prompt pm) \<longrightarrow>
            dict_get out ''prompt'' = PStr (py_strip '', '' (prompt pm @ '', '' @ t)))"
proof -
  from out obtain d0 r2 r3 r5 where
    s: "apply_suffix fmt gs (previous_override (Some pm) r3) = Inr r5" and
    o: "out = seed_default gs rnd (negative_default r5)"
    by (rule apply_defaults_InrD)
  let ?r4 = "previous_override (Some pm) r3"
  have other: "dict_get out k = dict_get ?r4 k"
    if "k \<noteq> ''prompt''" "k \<noteq> ''negative_prompt''" "k \<noteq> ''seed''" for k
    using that by (simp add: o dict_get_seed_default dict_get_negative_default
        dict_get_apply_suffix [OF s])
  have neg: "dict_get out ''negative_prompt'' = PStr n"
    if "negative_prompt pm = Some n" "n \<noteq> []" for n
  proof -
    have "dict_get r5 ''negative_prompt'' = PStr n"
      using dict_get_apply_suffix [OF s, of "''negative_prompt''"] that
      by (simp add: previous_override_keys)
    then show ?thesis using that
      by (simp add: o dict_get_seed_default negative_default_def)
  qed
  have pr: "dict_get out ''prompt'' = dict_get r5 ''prompt''"
    by (simp add: o dict_get_seed_default dict_get_negative_default)
  have p1: "dict_get out ''prompt'' = PStr (prompt pm)"
    if "prompt pm \<noteq> []" "\<not> truthy (suffix_of gs)"
    using apply_suffix_none [OF s that(2)] that(1) by (simp add: pr previous_override_keys)
  have p2: "dict_get out ''prompt'' =
      PStr (if str_contains t (prompt pm) then prompt pm
            else py_strip '', '' (prompt pm @ '', '' @ t))"
    if "prompt pm \<noteq> []" "suffix_of gs = PStr t"
    using apply_suffix_str [OF s _ that(1) that(2)] that(1)
    by (simp add: pr previous_override_keys)
  show ?thesis
    using other [of "''steps''"] other [of "''cfg_scale''"] other [of "''sampler''"]
      other [of "''width''"] other [of "''height''"] other [of "''scheduler''"] neg p1 p2
    by (auto simp: previous_override_keys)
qed

theorem follow_up_resolution_witness:
  "apply_defaults example_fmt example_settings example_llm_result (Some example_previous_full)
     (Some example_global_settings) None 7 =
   Inr [(''prompt'', PStr ''prev prompt, masterpiece''),
        (''negative_prompt'', PStr ''prev neg''), (''steps'', PInt 30),
        (''cfg_scale'', PFloat (15 / 2)), (''sampler'', PStr ''Euler a''),
        (''scheduler'', PStr ''Karras''), (''width'', PInt 512), (''height'', PInt 512),
        (''seed'', PInt 7)]
   \<and> dict_get
       [(''prompt'', PStr ''prev prompt, masterpiece''),
        (''negative_prompt'', PStr ''prev neg''), (''steps'', PInt 30),
        (''cfg_scale'', PFloat (15 / 2)), (''sampler'', PStr ''Euler a''),
        (''scheduler'', PStr ''Karras''), (''width'', PInt 512), (''height'', PInt 512),
        (''seed'', PInt 7)] ''steps'' = PInt (steps example_previous_full)"
proof -
  have h: "apply_defaults example_fmt example_settings example_llm_result
      (Some example_previous_full) (Some example_global_settings) None 7 =
    Inr [(''prompt'', PStr ''prev prompt, masterpiece''),
         (''negative_prompt'', PStr ''prev neg''), (''steps'', PInt 30),
         (''cfg_scale'', PFloat (15 / 2)), (''sampler'', PStr ''Euler a''),
         (''scheduler'', PStr ''Karras''), (''width'', PInt 512), (''height'', PInt 512),
         (''seed'', PInt 7)]"
    by (simp add: resolver_defs example_defs)
  from follow_up_resolution [OF h] h show ?thesis by simp
qed

text \<open>
  The claim C1 as it is stated fails: with a previous metadata whose scheduler and
  negative prompt are null, an LLM result that gives both, and a default prompt suffix in
  the global settings, the resolved prompt, negative prompt and scheduler all differ from
  the previous ones.
\<close>

theorem follow_up_exact_counterexample:
  "apply_defaults example_fmt example_settings example_llm_result (Some example_previous)
     (Some example_global_settings) None 7 =
   Inr [(''prompt'', PStr ''prev prompt, masterpiece''), (''negative_prompt'', PStr ''neg''),
        (''steps'', PInt 30), (''cfg_scale'', PFloat (15 / 2)), (''sampler'', PStr ''Euler a''),
        (''scheduler'', PStr ''Exponential''), (''width'', PInt 512), (''height'', PInt 512),
        (''seed'', PInt 7)]
   \<and> PStr ''prev prompt, masterpiece'' \<noteq> PStr (prompt example_previous)
   \<and> PStr ''neg'' \<noteq> opt_str (negative_prompt example_previous)
   \<and> PStr ''Exponential'' \<noteq> opt_str (scheduler example_previous)"
  by (simp add: resolver_defs example_defs)

text \<open>
  C5. In the resolution of a new request that returns, a key of steps, cfg_scale,
  sampler, scheduler, width, height that the \<^verbatim>\<open>default_sd_params\<close> of the global
  settings set to a value other than \<^verbatim>\<open>None\<close> has that value in the output,
  whatever the LLM result and the research result give for it.
\<close>

theorem global_settings_final_override:
  assumes out: "apply_defaults fmt st result None (Some gs) research_result rnd = Inr out"
    and sd: "dict_get_default gs ''default_sd_params'' (PDict []) = PDict sd_params"
    and key: "key \<in> set SD_PARAM_KEYS"
    and set: "dict_get sd_params key \<noteq> PNone"
  shows "dict_get out key = dict_get sd_params key"
proof -
  from out obtain d0 r2 r3 r5 where
    g: "global_override (Some gs) r2 = Inr r3" and
    s: "apply_suffix fmt (Some gs) (previous_override None r3) = Inr r5" and
    o: "out = seed_default (Some gs) rnd (negative_default r5)"
    by (rule apply_defaults_InrD)
  from set have "sd_params \<noteq> []" by (auto simp: dict_get_def)
  with sd have "gs \<noteq> []" by (auto simp: dict_get_default_def)
  with g sd have r3: "r3 = override_with (dict_get sd_params) SD_PARAM_KEYS r2"
    by (simp add: global_override_def get_sd_params_def)
  have k: "key \<noteq> ''prompt''" "key \<noteq> ''negative_prompt''" "key \<noteq> ''seed''"
    using sd_key_cases [OF key] by simp_all
  have "dict_get out key = dict_get r5 key"
    by (simp add: o dict_get_seed_default [OF k(3)] dict_get_negative_default [OF k(2)])
  also have "\<dots> = dict_get r3 key"
    using dict_get_apply_suffix [OF s k(1)] by (simp add: previous_override_def)
  also have "\<dots> = dict_get sd_params key"
    using key set by (simp add: r3 dict_get_override_with)
  finally show ?thesis .
qed

text \<open>The scenario of the claim: the settings say 45 steps, the LLM says 20.\<close>

theorem global_settings_final_override_witness:
  "dict_get example_llm_result ''steps'' = PInt 20
   \<and> apply_defaults example_fmt example_settings example_llm_result None
       (Some example_global_settings) None 7 =
     Inr [(''prompt'', PStr ''test, masterpiece''), (''negative_prompt'', PStr ''neg''),
          (''steps'', PInt 45), (''cfg_scale'', PFloat 8), (''sampler'', PStr ''DDIM''),
          (''scheduler'', PStr ''Exponential''), (''width'', PInt 768), (''height'', PInt 768),
          (''seed'', PInt 7)]
   \<and> dict_get
       [(''prompt'', PStr ''test, masterpiece''), (''negative_prompt'', PStr ''neg''),
        (''steps'', PInt 45), (''cfg_scale'', PFloat 8), (''sampler'', PStr ''DDIM''),
        (''scheduler'', PStr ''Exponential''), (''width'', PInt 768), (''height'', PInt 768),
        (''seed'', PInt 7)] ''steps'' = dict_get [(''steps'', PInt 45)] ''steps''"
proof -
  have h: "apply_defaults example_fmt example_settings example_llm_result None
       (Some example_global_settings) None 7 =
     Inr [(''prompt'', PStr ''test, masterpiece''), (''negative_prompt'', PStr ''neg''),
          (''steps'', PInt 45), (''cfg_scale'', PFloat 8), (''sampler'', PStr ''DDIM''),
          (''scheduler'', PStr ''Exponential''), (''width'', PInt 768), (''height'', PInt 768),
          (''seed'', PInt 7)]"
    by (simp add: resolver_defs example_defs)
  have sd: "dict_get_default example_global_settings ''default_sd_params'' (PDict []) =
      PDict [(''steps'', PInt 45)]"
    by (simp add: dict_get_default_def example_global_settings_def)
  have key: "''steps'' \<in> set SD_PARAM_KEYS" by (simp add: SD_PARAM_KEYS_def)
  have nn: "dict_get [(''steps'', PInt 45)] ''steps'' \<noteq> PNone" by (simp add: dict_get_def)
  from global_settings_final_override [OF h sd key nn] h show ?thesis
    by (simp add: example_llm_result_def dict_get_def)
qed

text \<open>
  C8. Two resolutions of the same inputs that differ only in the random draw give the
  same error or outputs that are equal once the seed is taken out; when the global
  settings give an explicit seed, they give the same result, seed included.
\<close>

theorem resolver_deterministic_except_seed:
  "without_seed (apply_defaults fmt st result pm gs rr rnd1) =
   without_seed (apply_defaults fmt st result pm gs rr rnd2)
   \<and> (explicit_seed gs \<longrightarrow>
        apply_defaults fmt st result pm gs rr rnd1 = apply_defaults fmt st result pm gs rr rnd2)"
  by (auto simp: apply_defaults_def without_seed_def Let_def delete_seed_default
      seed_default_explicit [of gs rnd1 _ rnd2] split: sum.splits)

theorem resolver_deterministic_except_seed_witness:
  "explicit_seed (Some example_seeded_settings)
   \<and> apply_defaults example_fmt example_settings example_llm_result None
       (Some example_seeded_settings) None 1 =
     apply_defaults example_fmt example_settings example_llm_result None
       (Some example_seeded_settings) None 2
   \<and> apply_defaults example_fmt example_settings example_llm_result None
       (Some example_seeded_settings) None 1 =
     Inr [(''prompt'', PStr ''test''), (''negative_prompt'', PStr ''neg''),
          (''steps'', PInt 45), (''cfg_scale'', PFloat 8), (''sampler'', PStr ''DDIM''),
          (''scheduler'', PStr ''Exponential''), (''width'', PInt 768), (''height'', PInt 768),
          (''seed'', PInt 42)]"
proof -
  have e: "explicit_seed (Some example_seeded_settings)"
    by (simp add: explicit_seed_def example_seeded_settings_def dict_get_def)
  have v: "apply_defaults example_fmt example_settings example_llm_result None
       (Some example_seeded_settings) None 1 =
     Inr [(''prompt'', PStr ''test''), (''negative_prompt'', PStr ''neg''),
          (''steps'', PInt 45), (''cfg_scale'', PFloat 8), (''sampler'', PStr ''DDIM''),
          (''scheduler'', PStr ''Exponential''), (''width'', PInt 768), (''height'', PInt 768),
          (''seed'', PInt 42)]"
    by (simp add: resolver_defs example_defs)
  from resolver_deterministic_except_seed
    [of example_fmt example_settings example_llm_result None "Some example_seeded_settings"
      None 1 2] e v
  show ?thesis by simp
qed

section \<open>Properties of prompt generation\<close>

text \<open>
  C10. When the research collaborator raises during the research of a new request with the
  web-research flag set, prompt generation returns what it returns for the same request
  without the flag: the exception stays inside the research step, the research result is
  \<^verbatim>\<open>None\<close>, and the resolution goes on without it.
\<close>

theorem research_failure_is_no_research:
  assumes "research user_instruction = Inl e"
  shows "generate_prompt fmt st None research llm user_instruction None global_settings True rnd =
         generate_prompt fmt st service_init research' llm user_instruction None global_settings
           False rnd"
  using assms by (simp add: generate_prompt_def perform_web_research_def)

text \<open>
  An instance: the research fails, the LLM answers, and the prompt is generated.
\<close>

theorem research_failure_is_no_research_witness:
  "example_failing_research ''a red fox in snow'' = Inl (PyException ''HTTP 503'')
   \<and> generate_prompt example_fmt example_settings None example_failing_research example_llm
       ''a red fox in snow'' None None True 7 =
     generate_prompt example_fmt example_settings None example_failing_research example_llm
       ''a red fox in snow'' None None False 7
   \<and> generate_prompt example_fmt example_settings None example_failing_research example_llm
       ''a red fox in snow'' None None True 7 =
     Inr [(''prompt'', PStr ''test''), (''negative_prompt'', PStr ''neg''),
          (''steps'', PInt 20), (''cfg_scale'', PFloat 8), (''sampler'', PStr ''DDIM''),
          (''scheduler'', PStr ''Exponential''), (''width'', PInt 768), (''height'', PInt 768),
          (''seed'', PInt 7)]"
proof -
  have h: "example_failing_research ''a red fox in snow'' = Inl (PyException ''HTTP 503'')"
    by (simp add: example_failing_research_def)
  have v: "generate_prompt example_fmt example_settings None example_failing_research example_llm
       ''a red fox in snow'' None None False 7 =
     Inr [(''prompt'', PStr ''test''), (''negative_prompt'', PStr ''neg''),
          (''steps'', PInt 20), (''cfg_scale'', PFloat 8), (''sampler'', PStr ''DDIM''),
          (''scheduler'', PStr ''Exponential''), (''width'', PInt 768), (''height'', PInt 768),
          (''seed'', PInt 7)]"
    by (simp add: generate_prompt_def example_llm_def log_prompt_length_def resolver_defs
        example_defs)
  from research_failure_is_no_research
    [where research = example_failing_research and user_instruction = "''a red fox in snow''"
       and fmt = example_fmt and st = example_settings and llm = example_llm
       and global_settings = None and rnd = 7 and service_init = None
       and research' = example_failing_research, OF h] h v
  show ?thesis by simp
qed

section \<open>Properties of the queue manager\<close>

lemmas queue_defs =
  start_def QueueManager_init_def restore_pending_requests_def update_request_def
  queue_put_def queue_get_def task_done_def task_less_def task_key_def get_request_def
  enqueue_generation_def enqueue_gemini_generation_def enqueue_xai_generation_def
  worker_begin_def worker_get_def worker_head_def worker_end_def worker_iteration_def
  worker_error_def dispatch_def
  create_request_def example_row_def example_settings_def

lemmas run_defs =
  queue_defs stop_def enqueue_ok_def held_by_worker_def message_iff_failed_def
  failed_has_message_def Let_def

subsection \<open>Recovery at start\<close>

lemma restore_loop_fields:
  "settings (restore_loop rs s) = settings s"
  "is_running (restore_loop rs s) = is_running s"
  "worker_task (restore_loop rs s) = worker_task s"
  "effects (restore_loop rs s) = effects s"
  by (induction rs arbitrary: s) simp_all

lemma restore_loop_heap:
  "heap (queue (restore_loop rs s)) =
     heap (queue s) @
     map (\<lambda>r. \<lparr>priority = 0, request_id = id' r, use_gemini = False, use_xai = False\<rparr>) rs"
  by (induction rs arbitrary: s) (simp_all add: queue_put_def)

lemma restore_loop_unfinished:
  "unfinished_tasks (queue (restore_loop rs s)) = unfinished_tasks (queue s) + length rs"
  by (induction rs arbitrary: s) (simp_all add: queue_put_def)

lemma restore_loop_requests:
  "requests (restore_loop rs s) =
     map (\<lambda>r. if id' r \<in> id' ` set rs then r\<lparr>status := PENDING\<rparr> else r) (requests s)"
proof (induction rs arbitrary: s)
  case Nil
  then show ?case by simp
next
  case (Cons x rs)
  show ?case
    by (auto simp: Cons.IH update_request_def)
qed

lemma distinct_ids_filter:
  assumes "distinct (map id' rows)" and "r \<in> set rows"
  shows "id' r \<in> id' ` set (filter P rows) \<longleftrightarrow> P r"
proof
  assume "id' r \<in> id' ` set (filter P rows)"
  then obtain r' where r': "r' \<in> set rows" "P r'" "id' r' = id' r" by auto
  with assms have "r' = r" by (meson distinct_map inj_onD)
  with r' show "P r" by simp
next
  assume "P r" with assms(2) show "id' r \<in> id' ` set (filter P rows)" by auto
qed

lemma start_init_requests:
  assumes "distinct (map id' rows)"
  shows "requests (start (QueueManager_init st rows)) =
     map (\<lambda>r. if status r = PENDING \<or> status r = PROCESSING then r\<lparr>status := PENDING\<rparr> else r) rows"
proof -
  let ?P = "\<lambda>r. status r = PENDING \<or> status r = PROCESSING"
  have "map (\<lambda>r. if id' r \<in> id' ` set (filter ?P rows) then r\<lparr>status := PENDING\<rparr> else r) rows =
        map (\<lambda>r. if ?P r then r\<lparr>status := PENDING\<rparr> else r) rows"
  proof (rule map_cong)
    fix r assume "r \<in> set rows"
    from distinct_ids_filter [OF assms this, of ?P]
    show "(if id' r \<in> id' ` set (filter ?P rows) then r\<lparr>status := PENDING\<rparr> else r) =
          (if ?P r then r\<lparr>status := PENDING\<rparr> else r)"
      by simp
  qed simp
  then show ?thesis
    by (simp add: start_def QueueManager_init_def restore_pending_requests_def
        restore_loop_requests)
qed

lemma start_init_heap:
  "heap (queue (start (QueueManager_init st rows))) =
     map (\<lambda>r. \<lparr>priority = 0, request_id = id' r, use_gemini = False, use_xai = False\<rparr>)
       (filter (\<lambda>r. status r = PENDING \<or> status r = PROCESSING) rows)"
  by (simp add: start_def QueueManager_init_def restore_pending_requests_def restore_loop_heap)

lemma start_init_fields:
  "is_running (start (QueueManager_init st rows))"
  "worker_task (start (QueueManager_init st rows)) = Some Waiting"
  "settings (start (QueueManager_init st rows)) = st"
  "effects (start (QueueManager_init st rows)) = []"
  "unfinished_tasks (queue (start (QueueManager_init st rows))) =
     length (filter (\<lambda>r. status r = PENDING \<or> status r = PROCESSING) rows)"
  by (simp_all add: start_def QueueManager_init_def restore_pending_requests_def
      restore_loop_fields restore_loop_unfinished)

lemma get_request_distinct:
  "distinct (map id' rows) \<Longrightarrow> r \<in> set rows \<Longrightarrow> get_request rows (id' r) = Some r"
  by (induction rows) (auto simp: get_request_def)

lemma get_request_map:
  "(\<And>r. id' (f r) = id' r) \<Longrightarrow> get_request (map f rows) rid = map_option f (get_request rows rid)"
  by (induction rows) (auto simp: get_request_def)

text \<open>
  C4. When the table holds exactly two rows with status \<open>PROCESSING\<close> and one row
  with status \<open>COMPLETED\<close>, \<^verbatim>\<open>start()\<close> of a new manager sets the two
  \<open>PROCESSING\<close> rows to \<open>PENDING\<close>, leaves the \<open>COMPLETED\<close> row as it is,
  and puts one task of priority 0 into the queue for each of the two.
\<close>

theorem crash_recovery_resets_processing:
  assumes d: "distinct (map id' rows)"
    and p: "filter (\<lambda>r. status r = PROCESSING) rows = [p1, p2]"
    and c: "filter (\<lambda>r. status r \<noteq> PROCESSING) rows = [c]"
    and sc: "status c = COMPLETED"
  shows "requests (start (QueueManager_init st rows)) =
           map (\<lambda>r. if status r = PROCESSING then r\<lparr>status := PENDING\<rparr> else r) rows
       \<and> get_request (requests (start (QueueManager_init st rows))) (id' p1) =
           Some (p1\<lparr>status := PENDING\<rparr>)
       \<and> get_request (requests (start (QueueManager_init st rows))) (id' p2) =
           Some (p2\<lparr>status := PENDING\<rparr>)
       \<and> get_request (requests (start (QueueManager_init st rows))) (id' c) = Some c
       \<and> heap (queue (start (QueueManager_init st rows))) =
           [\<lparr>priority = 0, request_id = id' p1, use_gemini = False, use_xai = False\<rparr>,
            \<lparr>priority = 0, request_id = id' p2, use_gemini = False, use_xai = False\<rparr>]"
proof -
  let ?s = "start (QueueManager_init st rows)"
  let ?f = "\<lambda>r. if status r = PENDING \<or> status r = PROCESSING then r\<lparr>status := PENDING\<rparr> else r"
  have "p1 \<in> set (filter (\<lambda>r. status r = PROCESSING) rows)"
    "p2 \<in> set (filter (\<lambda>r. status r = PROCESSING) rows)"
    "c \<in> set (filter (\<lambda>r. status r \<noteq> PROCESSING) rows)"
    by (simp_all add: p c)
  then have mem: "p1 \<in> set rows" "p2 \<in> set rows" "c \<in> set rows"
    and st: "status p1 = PROCESSING" "status p2 = PROCESSING"
    by simp_all
  have nopending: "status r \<noteq> PENDING" if "r \<in> set rows" for r
  proof
    assume "status r = PENDING"
    with that have "r \<in> set (filter (\<lambda>r. status r \<noteq> PROCESSING) rows)" by simp
    with c sc \<open>status r = PENDING\<close> show False by simp
  qed
  have fl: "filter (\<lambda>r. status r = PENDING \<or> status r = PROCESSING) rows = [p1, p2]"
    using p nopending by (metis (mono_tags, lifting) filter_cong)
  have rq: "requests ?s = map ?f rows" by (rule start_init_requests [OF d])
  have rq': "map ?f rows = map (\<lambda>r. if status r = PROCESSING then r\<lparr>status := PENDING\<rparr> else r) rows"
    by (rule map_cong) (simp_all add: nopending)
  have g: "get_request (requests ?s) (id' r) = Some (?f r)" if "r \<in> set rows" for r
    by (simp add: rq get_request_map get_request_distinct [OF d that])
  show ?thesis
    using g [OF mem(1)] g [OF mem(2)] g [OF mem(3)] st sc rq rq'
    by (simp add: start_init_heap fl)
qed

theorem crash_recovery_resets_processing_witness:
  "distinct (map id' example_rows)
   \<and> filter (\<lambda>r. status r = PROCESSING) example_rows =
       [example_row ''p1'' PROCESSING, example_row ''p2'' PROCESSING]
   \<and> filter (\<lambda>r. status r \<noteq> PROCESSING) example_rows = [example_row ''c'' COMPLETED]
   \<and> status (example_row ''c'' COMPLETED) = COMPLETED
   \<and> requests (start (QueueManager_init example_settings example_rows)) =
       [example_row ''p1'' PENDING, example_row ''c'' COMPLETED, example_row ''p2'' PENDING]
   \<and> heap (queue (start (QueueManager_init example_settings example_rows))) =
       [\<lparr>priority = 0, request_id = ''p1'', use_gemini = False, use_xai = False\<rparr>,
        \<lparr>priority = 0, request_id = ''p2'', use_gemini = False, use_xai = False\<rparr>]"
proof -
  have d: "distinct (map id' example_rows)"
    by (simp add: example_rows_def example_row_def)
  have p: "filter (\<lambda>r. status r = PROCESSING) example_rows =
       [example_row ''p1'' PROCESSING, example_row ''p2'' PROCESSING]"
    by (simp add: example_rows_def example_row_def)
  have c: "filter (\<lambda>r. status r \<noteq> PROCESSING) example_rows = [example_row ''c'' COMPLETED]"
    by (simp add: example_rows_def example_row_def)
  have sc: "status (example_row ''c'' COMPLETED) = COMPLETED"
    by (simp add: example_row_def)
  from crash_recovery_resets_processing [OF d p c sc, of example_settings] d p c sc
  show ?thesis by (simp add: example_rows_def example_row_def)
qed

text \<open>
  C9. Every task that \<^verbatim>\<open>start()\<close> of a new manager puts into the queue has
  priority 0 and neither provider flag, so the worker sends it to the default SD
  pipeline; and every row left \<open>PROCESSING\<close> gets such a task, whatever provider and
  priority it was enqueued with before (the row records neither).
\<close>

theorem recovered_tasks_default_mode:
  "(t \<in> set (heap (queue (start (QueueManager_init st rows)))) \<longrightarrow>
      priority t = 0 \<and> \<not> use_gemini t \<and> \<not> use_xai t \<and> dispatch t = SD)
   \<and> (r \<in> set rows \<and> status r = PROCESSING \<longrightarrow>
      \<lparr>priority = 0, request_id = id' r, use_gemini = False, use_xai = False\<rparr>
        \<in> set (heap (queue (start (QueueManager_init st rows)))))"
  by (auto simp: start_init_heap dispatch_def)

text \<open>
  An instance: a request enqueued for Gemini with priority 7 is interrupted in its
  pipeline; the new manager enqueues it with priority 0 and processes it with SD.
\<close>

theorem recovered_tasks_default_mode_witness:
  "worker_task example_interrupted =
     Some (Processing \<lparr>priority = - 7, request_id = ''g1'', use_gemini = True, use_xai = False\<rparr>)
   \<and> effects example_interrupted = [LogProcessing Gemini ''g1'']
   \<and> requests example_interrupted = [example_row ''g1'' PROCESSING]
   \<and> heap (queue (start (QueueManager_init example_settings (requests example_interrupted)))) =
       [\<lparr>priority = 0, request_id = ''g1'', use_gemini = False, use_xai = False\<rparr>]
   \<and> dispatch \<lparr>priority = 0, request_id = ''g1'', use_gemini = False, use_xai = False\<rparr> = SD
   \<and> effects (worker_begin
        (start (QueueManager_init example_settings (requests example_interrupted)))) =
       [LogProcessing SD ''g1'']"
proof -
  have i: "example_interrupted =
     \<lparr>settings = example_settings, is_running = True,
      worker_task = Some (Processing
        \<lparr>priority = - 7, request_id = ''g1'', use_gemini = True, use_xai = False\<rparr>),
      queue = \<lparr>heap = [], unfinished_tasks = 1\<rparr>,
      requests = [example_row ''g1'' PROCESSING],
      effects = [LogProcessing Gemini ''g1'']\<rparr>"
    by (simp add: example_interrupted_def queue_defs)
  have h: "heap (queue (start (QueueManager_init example_settings (requests example_interrupted)))) =
       [\<lparr>priority = 0, request_id = ''g1'', use_gemini = False, use_xai = False\<rparr>]"
    by (simp add: i queue_defs)
  have m: "\<lparr>priority = 0, request_id = ''g1'', use_gemini = False, use_xai = False\<rparr>
      \<in> set (heap (queue (start (QueueManager_init example_settings (requests example_interrupted)))))"
    by (simp add: h)
  have e: "effects (worker_begin
        (start (QueueManager_init example_settings (requests example_interrupted)))) =
       [LogProcessing SD ''g1'']"
    by (simp add: i queue_defs)
  from recovered_tasks_default_mode
    [of "\<lparr>priority = 0, request_id = ''g1'', use_gemini = False, use_xai = False\<rparr>"
      example_settings "requests example_interrupted" "example_row ''g1'' PROCESSING"] m h e
  show ?thesis by (simp add: i)
qed

subsection \<open>One iteration of the worker\<close>

lemma get_request_SomeD:
  "get_request rows rid = Some r \<Longrightarrow> id' r = rid \<and> r \<in> set rows"
  by (auto simp: get_request_def find_Some_iff)

lemma get_request_update:
  assumes "\<And>r. id' (f r) = id' r"
  shows "get_request (update_request rid f rows) rid' =
     (if rid' = rid then map_option f (get_request rows rid') else get_request rows rid')"
  using assms by (induction rows) (auto simp: get_request_def update_request_def)

lemma queue_get_single:
  "heap q = [t] \<Longrightarrow> queue_get q = Some (t, q\<lparr>heap := []\<rparr>)"
  by (simp add: queue_get_def)

lemma worker_begin_found:
  assumes "is_running s" "worker_task s = Some Waiting"
    "queue_get (queue s) = Some (task, q)"
    "get_request (requests s) (request_id task) = Some request"
  shows "worker_begin s =
    s\<lparr>queue := q,
      requests := update_request (request_id task) (\<lambda>r. r\<lparr>status := PROCESSING\<rparr>) (requests s),
      effects := effects s @ [LogProcessing (dispatch task) (request_id task)],
      worker_task := Some (Processing task)\<rparr>"
  using assms get_request_SomeD [OF assms(4)]
  by (simp add: worker_begin_def worker_get_def worker_head_def)

lemma worker_iteration_fails:
  assumes "is_running s" "worker_task s = Some Waiting"
    "queue_get (queue s) = Some (task, q)"
    "get_request (requests s) (request_id task) = Some request"
  shows "worker_iteration (Fails f) s =
    s\<lparr>queue := q,
      requests :=
        update_request (request_id task)
          (\<lambda>r. r\<lparr>status := FAILED, error_message := Some (failure_message f)\<rparr>)
          (update_request (request_id task) (\<lambda>r. r\<lparr>status := PROCESSING\<rparr>) (requests s)),
      effects := effects s @
        [LogProcessing (dispatch task) (request_id task),
         LogWorkerError (''Error in worker loop: '' @ failure_message f),
         Sleep (queue_error_retry_interval (settings s))],
      worker_task := Some Waiting\<rparr>"
  by (simp add: worker_iteration_def worker_begin_found [OF assms] worker_end_def
      worker_error_def)

lemma worker_iteration_succeeds_status:
  assumes "is_running s" "worker_task s = Some Waiting"
    "queue_get (queue s) = Some (task, q)"
    "get_request (requests s) (request_id task) = Some request"
  shows "map_option status (get_request (requests (worker_iteration Succeeds s)) (request_id task)) =
     Some COMPLETED"
  using assms(4)
  by (simp add: worker_iteration_def worker_begin_found [OF assms] worker_end_def
      worker_error_def Let_def get_request_update split: option.splits)

lemma apply_enqueue:
  assumes "op \<in> enqueue_ops rid prio"
  obtains t where "apply_operation op s = s\<lparr>queue := queue_put t (queue s)\<rparr>" "request_id t = rid"
  using assms
  by (auto simp: enqueue_ops_def enqueue_generation_def enqueue_gemini_generation_def
      enqueue_xai_generation_def)

lemma processed_append: "processed (es @ fs) = processed es @ processed fs"
  by (induction es rule: processed.induct) simp_all

lemma least_task_mem: "least_task t ts \<in> set (t # ts)"
  by (induction ts arbitrary: t) (auto split: if_splits)

lemma queue_get_Cons:
  "heap q = t # ts \<Longrightarrow>
     queue_get q = Some (least_task t ts, q\<lparr>heap := remove1 (least_task t ts) (t # ts)\<rparr>)"
  by (simp add: queue_get_def Let_def)

lemma worker_end_not_cancelled:
  assumes "worker_task s = Some (Processing task)" "oc \<noteq> Cancelled"
  shows "is_running (worker_end oc s) = is_running s"
    "worker_task (worker_end oc s) = Some Waiting"
    "heap (queue (worker_end oc s)) = heap (queue s)"
    "processed (effects (worker_end oc s)) = processed (effects s)"
    "(get_request (requests (worker_end oc s)) rid = None) = (get_request (requests s) rid = None)"
  using assms
  by (cases oc; simp add: worker_end_def worker_error_def Let_def task_done_def
      processed_append get_request_update)+

lemma worker_iteration_step:
  assumes run: "is_running s" and w: "worker_task s = Some Waiting"
    and h: "heap (queue s) = t # ts"
    and rows: "\<forall>u\<in>set (t # ts). get_request (requests s) (request_id u) \<noteq> None"
    and oc: "oc \<noteq> Cancelled"
  shows "is_running (worker_iteration oc s)"
    "worker_task (worker_iteration oc s) = Some Waiting"
    "heap (queue (worker_iteration oc s)) = remove1 (least_task t ts) (t # ts)"
    "processed (effects (worker_iteration oc s)) =
       processed (effects s) @ [request_id (least_task t ts)]"
    "(get_request (requests (worker_iteration oc s)) rid = None) =
       (get_request (requests s) rid = None)"
proof -
  let ?m = "least_task t ts"
  from rows least_task_mem [of t ts] obtain request where
    r: "get_request (requests s) (request_id ?m) = Some request" by blast
  note b = worker_begin_found [OF run w queue_get_Cons [OF h] r]
  have p: "worker_task (worker_begin s) = Some (Processing ?m)" by (simp add: b)
  note e = worker_end_not_cancelled [OF p oc]
  show "is_running (worker_iteration oc s)"
    "worker_task (worker_iteration oc s) = Some Waiting"
    "heap (queue (worker_iteration oc s)) = remove1 (least_task t ts) (t # ts)"
    "processed (effects (worker_iteration oc s)) =
       processed (effects s) @ [request_id (least_task t ts)]"
    "(get_request (requests (worker_iteration oc s)) rid = None) =
       (get_request (requests s) rid = None)"
    unfolding worker_iteration_def e
    using run by (simp_all add: b processed_append get_request_update)
qed

lemma example_running_eq:
  "example_running =
     \<lparr>settings = example_settings, is_running = True, worker_task = Some Waiting,
      queue = \<lparr>heap = [], unfinished_tasks = 0\<rparr>,
      requests = [example_row ''r1'' PENDING, example_row ''r2'' PENDING,
                  example_row ''r3'' PENDING, example_row ''r4'' PENDING],
      effects = []\<rparr>"
  by (simp add: example_running_def start_def QueueManager_init_def restore_pending_requests_def
      create_request_def example_row_def)

text \<open>
  C6 fails on the code: \<^verbatim>\<open>task_done()\<close> is called in the \<^verbatim>\<open>try\<close> body
  after the pipeline returns, and an exception of the pipeline skips it. With one task
  in the queue, an iteration whose pipeline fails leaves the queue empty and one task
  unfinished, where an iteration that succeeds leaves none.
\<close>

theorem task_done_skipped_on_failure:
  "unfinished_tasks (queue (enqueue_generation ''r1'' 0 example_running)) = 1
   \<and> heap (queue (worker_iteration (Fails (AppError ''SD API timeout''))
        (enqueue_generation ''r1'' 0 example_running))) = []
   \<and> worker_task (worker_iteration (Fails (AppError ''SD API timeout''))
        (enqueue_generation ''r1'' 0 example_running)) = Some Waiting
   \<and> unfinished_tasks (queue (worker_iteration (Fails (AppError ''SD API timeout''))
        (enqueue_generation ''r1'' 0 example_running))) = 1
   \<and> unfinished_tasks (queue (worker_iteration Succeeds
        (enqueue_generation ''r1'' 0 example_running))) = 0"
  by (simp add: example_running_eq queue_defs Let_def)

text \<open>
  An error of the pipeline that leaves the session able to commit: the row of the request
  is committed as \<open>FAILED\<close> with the message of the error, the worker logs the
  error, sleeps for \<open>queue_error_retry_interval\<close> and stays in its loop; and when the
  queue is then empty, a task enqueued afterwards for another request is processed by the
  next iteration, which completes it.
\<close>

lemma failure_recorded_when_session_commits:
  assumes run: "is_running s" and w: "worker_task s = Some Waiting"
    and q: "queue_get (queue s) = Some (task, q')"
    and r: "get_request (requests s) (request_id task) = Some request"
  shows "map_option status
           (get_request (requests (worker_iteration (Fails f) s)) (request_id task)) = Some FAILED
       \<and> map_option error_message
           (get_request (requests (worker_iteration (Fails f) s)) (request_id task)) =
           Some (Some (failure_message f))
       \<and> effects (worker_iteration (Fails f) s) =
           effects s @
           [LogProcessing (dispatch task) (request_id task),
            LogWorkerError (''Error in worker loop: '' @ failure_message f),
            Sleep (queue_error_retry_interval (settings s))]
       \<and> is_running (worker_iteration (Fails f) s)
       \<and> worker_task (worker_iteration (Fails f) s) = Some Waiting
       \<and> (heap q' = [] \<and> op \<in> enqueue_ops rid2 prio \<and> rid2 \<noteq> request_id task
            \<and> get_request (requests s) rid2 = Some request2 \<longrightarrow>
          map_option status
            (get_request
               (requests (worker_iteration Succeeds
                  (apply_operation op (worker_iteration (Fails f) s)))) rid2) =
          Some COMPLETED)"
proof -
  let ?s1 = "worker_iteration (Fails f) s"
  note s1 = worker_iteration_fails [OF run w q r, of f]
  have a: "map_option status (get_request (requests ?s1) (request_id task)) = Some FAILED"
    "map_option error_message (get_request (requests ?s1) (request_id task)) =
       Some (Some (failure_message f))"
    using r by (simp_all add: s1 get_request_update)
  have b: "effects ?s1 = effects s @
           [LogProcessing (dispatch task) (request_id task),
            LogWorkerError (''Error in worker loop: '' @ failure_message f),
            Sleep (queue_error_retry_interval (settings s))]"
    "is_running ?s1" "worker_task ?s1 = Some Waiting"
    using run by (simp_all add: s1)
  have c: "map_option status
            (get_request (requests (worker_iteration Succeeds (apply_operation op ?s1))) rid2) =
          Some COMPLETED"
    if e: "heap q' = []" and o: "op \<in> enqueue_ops rid2 prio" and ne: "rid2 \<noteq> request_id task"
      and r2: "get_request (requests s) rid2 = Some request2"
  proof -
    from o obtain t where t: "apply_operation op ?s1 = ?s1\<lparr>queue := queue_put t (queue ?s1)\<rparr>"
      "request_id t = rid2" by (rule apply_enqueue)
    let ?s2 = "apply_operation op ?s1"
    have h: "heap (queue ?s2) = [t]"
      unfolding t(1) by (simp add: s1 queue_put_def e)
    have g: "get_request (requests ?s2) (request_id t) = Some request2"
      unfolding t using r2 ne by (simp add: s1 get_request_update)
    have "map_option status
        (get_request (requests (worker_iteration Succeeds ?s2)) (request_id t)) = Some COMPLETED"
      by (rule worker_iteration_succeeds_status [OF _ _ queue_get_single [OF h] g])
        (simp_all add: t(1) b)
    then show ?thesis by (simp add: t(2))
  qed
  from a b c show ?thesis by blast
qed

text \<open>
  C7 fails on the code. The handlers of a pipeline commit \<open>FAILED\<close> on the session of
  the pipeline without a rollback (the session provider of
  \<^verbatim>\<open>database/connection.py\<close> does roll back). When the error is a failed flush
  of that session, their commit raises and nothing is recorded. An instance: with no
  global settings and an LLM result whose sampler is null the resolved sampler is null,
  which the metadata table refuses; the request stays \<open>PROCESSING\<close> with no error
  message, where a provider error on the same request is recorded as \<open>FAILED\<close> with
  its message. In both cases the worker logs, sleeps and goes on.
\<close>

theorem failed_flush_leaves_processing:
  "apply_defaults example_fmt example_settings example_llm_null_sampler None None None 7 =
     Inr [(''prompt'', PStr ''a red fox''), (''negative_prompt'', PStr ''blurry''),
          (''steps'', PInt 20), (''cfg_scale'', PFloat 7), (''sampler'', PNone),
          (''scheduler'', PNone), (''width'', PInt 512), (''height'', PInt 512),
          (''seed'', PInt 7)]
   \<and> requests (worker_iteration (FlushFails ''PendingRollbackError'') example_one_queued) =
       [example_row ''r1'' PROCESSING, example_row ''r2'' PENDING,
        example_row ''r3'' PENDING, example_row ''r4'' PENDING]
   \<and> effects (worker_iteration (FlushFails ''PendingRollbackError'') example_one_queued) =
       [LogProcessing SD ''r1'', LogWorkerError ''Error in worker loop: PendingRollbackError'',
        Sleep 5]
   \<and> worker_task (worker_iteration (FlushFails ''PendingRollbackError'') example_one_queued) =
       Some Waiting
   \<and> requests (worker_iteration (Fails (AppError ''SD API timeout'')) example_one_queued) =
       [(example_row ''r1'' FAILED)\<lparr>error_message := Some ''SD API timeout''\<rparr>,
        example_row ''r2'' PENDING, example_row ''r3'' PENDING, example_row ''r4'' PENDING]
   \<and> requests (worker_iteration Succeeds
        (enqueue_generation ''r2'' 0
           (worker_iteration (FlushFails ''PendingRollbackError'') example_one_queued))) =
       [example_row ''r1'' PROCESSING, example_row ''r2'' COMPLETED,
        example_row ''r3'' PENDING, example_row ''r4'' PENDING]"
  by (simp add: example_one_queued_def example_running_eq queue_defs Let_def resolver_defs
      example_defs example_llm_null_sampler_def)

subsection \<open>The order of service\<close>

lemma enqueue_generation_fields:
  "is_running (enqueue_generation rid prio s) = is_running s"
  "worker_task (enqueue_generation rid prio s) = worker_task s"
  "requests (enqueue_generation rid prio s) = requests s"
  "effects (enqueue_generation rid prio s) = effects s"
  "heap (queue (enqueue_generation rid prio s)) =
     heap (queue s) @ [\<lparr>priority = - prio, request_id = rid, use_gemini = False, use_xai = False\<rparr>]"
  by (simp_all add: enqueue_generation_def queue_put_def)

lemma least_of_four:
  "least_task \<lparr>priority = - 5, request_id = a, use_gemini = False, use_xai = False\<rparr>
     [\<lparr>priority = - 1, request_id = b, use_gemini = False, use_xai = False\<rparr>,
      \<lparr>priority = - 5, request_id = c, use_gemini = False, use_xai = False\<rparr>,
      \<lparr>priority = - 10, request_id = d, use_gemini = False, use_xai = False\<rparr>] =
   \<lparr>priority = - 10, request_id = d, use_gemini = False, use_xai = False\<rparr>"
  by (simp add: task_less_def task_key_def)

lemma least_of_three:
  "least_task \<lparr>priority = - 5, request_id = a, use_gemini = False, use_xai = False\<rparr>
     [\<lparr>priority = - 1, request_id = b, use_gemini = False, use_xai = False\<rparr>,
      \<lparr>priority = - 5, request_id = c, use_gemini = False, use_xai = False\<rparr>] =
   \<lparr>priority = - 5, request_id = (if c < a then c else a), use_gemini = False, use_xai = False\<rparr>"
  by (simp add: task_less_def task_key_def)

lemma least_of_two:
  "least_task \<lparr>priority = - 5, request_id = a, use_gemini = False, use_xai = False\<rparr>
     [\<lparr>priority = - 1, request_id = b, use_gemini = False, use_xai = False\<rparr>] =
   \<lparr>priority = - 5, request_id = a, use_gemini = False, use_xai = False\<rparr>"
  "least_task \<lparr>priority = - 1, request_id = b, use_gemini = False, use_xai = False\<rparr>
     [\<lparr>priority = - 5, request_id = c, use_gemini = False, use_xai = False\<rparr>] =
   \<lparr>priority = - 5, request_id = c, use_gemini = False, use_xai = False\<rparr>"
  by (simp_all add: task_less_def task_key_def)

text \<open>
  C2, as the code has it. Tasks enqueued with priorities 5, 1, 5, 10 for the requests
  \<open>a\<close>, \<open>b\<close>, \<open>c\<close>, \<open>d\<close> are processed in the order: \<open>d\<close>, then the two
  tasks of priority 5 in the order of their request identifiers, then \<open>b\<close>. The
  higher priority is served first; among equal priorities the smaller request identifier
  is, not the earlier task.
\<close>

theorem priority_order_ties_by_request_id:
  assumes run: "is_running s" and w: "worker_task s = Some Waiting"
    and empty: "heap (queue s) = []"
    and rows: "\<forall>rid\<in>{a, b, c, d}. get_request (requests s) rid \<noteq> None"
    and ocs: "Cancelled \<notin> {o1, o2, o3, o4}"
  shows "processed (effects (worker_loop [o1, o2, o3, o4]
           (enqueue_generation d 10 (enqueue_generation c 5
              (enqueue_generation b 1 (enqueue_generation a 5 s)))))) =
         processed (effects s) @ [d, min a c, max a c, b]"
proof -
  let ?ta = "\<lparr>priority = - 5, request_id = a, use_gemini = False, use_xai = False\<rparr>"
  let ?tb = "\<lparr>priority = - 1, request_id = b, use_gemini = False, use_xai = False\<rparr>"
  let ?tc = "\<lparr>priority = - 5, request_id = c, use_gemini = False, use_xai = False\<rparr>"
  let ?td = "\<lparr>priority = - 10, request_id = d, use_gemini = False, use_xai = False\<rparr>"
  let ?s0 = "enqueue_generation d 10 (enqueue_generation c 5
              (enqueue_generation b 1 (enqueue_generation a 5 s)))"
  let ?s1 = "worker_iteration o1 ?s0"
  let ?s2 = "worker_iteration o2 ?s1"
  let ?s3 = "worker_iteration o3 ?s2"
  let ?s4 = "worker_iteration o4 ?s3"
  from ocs have oc: "o1 \<noteq> Cancelled" "o2 \<noteq> Cancelled" "o3 \<noteq> Cancelled" "o4 \<noteq> Cancelled"
    by auto
  from rows have ex: "get_request (requests s) a \<noteq> None" "get_request (requests s) b \<noteq> None"
    "get_request (requests s) c \<noteq> None" "get_request (requests s) d \<noteq> None"
    by auto
  have s0: "is_running ?s0" "worker_task ?s0 = Some Waiting"
    "heap (queue ?s0) = [?ta, ?tb, ?tc, ?td]" "requests ?s0 = requests s"
    "effects ?s0 = effects s"
    using run w empty by (simp_all add: enqueue_generation_fields)
  have r0: "\<forall>u\<in>set [?ta, ?tb, ?tc, ?td]. get_request (requests ?s0) (request_id u) \<noteq> None"
    using ex by (simp add: s0)
  have l1: "least_task ?ta [?tb, ?tc, ?td] = ?td"
    by (rule least_of_four)
  note i1 = worker_iteration_step [OF s0(1,2,3) r0 oc(1)]
  have h1: "heap (queue ?s1) = [?ta, ?tb, ?tc]" by (simp add: i1(3) [unfolded l1])
  have p1: "processed (effects ?s1) = processed (effects s) @ [d]"
    by (simp add: i1(4) [unfolded l1] s0)
  have e1: "(get_request (requests ?s1) rid = None) = (get_request (requests s) rid = None)" for rid
    by (simp add: i1(5) s0)
  have r1: "\<forall>u\<in>set [?ta, ?tb, ?tc]. get_request (requests ?s1) (request_id u) \<noteq> None"
    using ex by (simp add: e1)
  note i2 = worker_iteration_step [OF i1(1,2) h1 r1 oc(2)]
  have e2: "(get_request (requests ?s2) rid = None) = (get_request (requests s) rid = None)" for rid
    by (simp add: i2(5) e1)
  show ?thesis
  proof (cases "c < a")
    case True
    then have l2: "least_task ?ta [?tb, ?tc] = ?tc"
      unfolding least_of_three by simp
    from True have ne: "a \<noteq> c" by auto
    have h2: "heap (queue ?s2) = [?ta, ?tb]" using ne by (simp add: i2(3) [unfolded l2])
    have p2: "processed (effects ?s2) = processed (effects s) @ [d, c]"
      by (simp add: i2(4) [unfolded l2] p1)
    have r2: "\<forall>u\<in>set [?ta, ?tb]. get_request (requests ?s2) (request_id u) \<noteq> None"
      using ex by (simp add: e2)
    note i3 = worker_iteration_step [OF i2(1,2) h2 r2 oc(3)]
    have l3: "least_task ?ta [?tb] = ?ta" by (rule least_of_two)
    have h3: "heap (queue ?s3) = [?tb]" by (simp add: i3(3) [unfolded l3])
    have p3: "processed (effects ?s3) = processed (effects s) @ [d, c, a]"
      by (simp add: i3(4) [unfolded l3] p2)
    have r3: "\<forall>u\<in>set [?tb]. get_request (requests ?s3) (request_id u) \<noteq> None"
      using ex by (simp add: i3(5) e2)
    note i4 = worker_iteration_step [OF i3(1,2) h3 r3 oc(4)]
    have "processed (effects ?s4) = processed (effects s) @ [d, c, a, b]"
      by (simp add: i4(4) p3)
    with True show ?thesis by (auto simp: min_def max_def)
  next
    case False
    then have l2: "least_task ?ta [?tb, ?tc] = ?ta"
      unfolding least_of_three by simp
    have h2: "heap (queue ?s2) = [?tb, ?tc]" by (simp add: i2(3) [unfolded l2])
    have p2: "processed (effects ?s2) = processed (effects s) @ [d, a]"
      by (simp add: i2(4) [unfolded l2] p1)
    have r2: "\<forall>u\<in>set [?tb, ?tc]. get_request (requests ?s2) (request_id u) \<noteq> None"
      using ex by (simp add: e2)
    note i3 = worker_iteration_step [OF i2(1,2) h2 r2 oc(3)]
    have l3: "least_task ?tb [?tc] = ?tc" by (rule least_of_two)
    have h3: "heap (queue ?s3) = [?tb]" by (simp add: i3(3) [unfolded l3])
    have p3: "processed (effects ?s3) = processed (effects s) @ [d, a, c]"
      by (simp add: i3(4) [unfolded l3] p2)
    have r3: "\<forall>u\<in>set [?tb]. get_request (requests ?s3) (request_id u) \<noteq> None"
      using ex by (simp add: i3(5) e2)
    note i4 = worker_iteration_step [OF i3(1,2) h3 r3 oc(4)]
    have "processed (effects ?s4) = processed (effects s) @ [d, a, c, b]"
      by (simp add: i4(4) p3)
    with False show ?thesis by (auto simp: min_def max_def)
  qed
qed

theorem priority_order_ties_by_request_id_witness:
  "is_running example_running \<and> worker_task example_running = Some Waiting
   \<and> heap (queue example_running) = []
   \<and> get_request (requests example_running) ''r1'' \<noteq> None
   \<and> get_request (requests example_running) ''r2'' \<noteq> None
   \<and> get_request (requests example_running) ''r3'' \<noteq> None
   \<and> get_request (requests example_running) ''r4'' \<noteq> None
   \<and> Cancelled \<notin> {Succeeds, Fails (AppError ''SD API timeout''), Succeeds, Succeeds}
   \<and> processed (effects (worker_loop
         [Succeeds, Fails (AppError ''SD API timeout''), Succeeds, Succeeds]
         (enqueue_generation ''r4'' 10 (enqueue_generation ''r2'' 5
            (enqueue_generation ''r3'' 1 (enqueue_generation ''r1'' 5 example_running)))))) =
       [''r4'', ''r1'', ''r2'', ''r3'']"
proof -
  have a: "is_running example_running" "worker_task example_running = Some Waiting"
    "heap (queue example_running) = []"
    by (simp_all add: example_running_eq)
  have r: "\<forall>rid\<in>{''r1'', ''r3'', ''r2'', ''r4''}. get_request (requests example_running) rid \<noteq> None"
    by (simp add: example_running_eq get_request_def example_row_def)
  have c: "Cancelled \<notin> {Succeeds, Fails (AppError ''SD API timeout''), Succeeds, Succeeds}"
    by simp
  have e: "processed (effects example_running) = []" by (simp add: example_running_eq)
  have r': "get_request (requests example_running) ''r1'' \<noteq> None"
    "get_request (requests example_running) ''r2'' \<noteq> None"
    "get_request (requests example_running) ''r3'' \<noteq> None"
    "get_request (requests example_running) ''r4'' \<noteq> None"
    using r by simp_all
  from priority_order_ties_by_request_id [OF a r c] a r' c e
  show ?thesis by simp
qed

text \<open>
  The claim C2 as it is stated fails: when the task enqueued first with priority 5 is for
  \<open>r2\<close> and the one enqueued second is for \<open>r1\<close>, the second is processed before
  the first.
\<close>

theorem fifo_within_priority_counterexample:
  "processed (effects (worker_loop [Succeeds, Succeeds, Succeeds, Succeeds]
       (enqueue_generation ''r4'' 10 (enqueue_generation ''r1'' 5
          (enqueue_generation ''r3'' 1 (enqueue_generation ''r2'' 5 example_running)))))) =
     [''r4'', ''r1'', ''r2'', ''r3'']
   \<and> [''r4'', ''r1'', ''r2'', ''r3''] \<noteq> [''r4'', ''r2'', ''r1'', ''r3'']"
  by (simp add: example_running_eq queue_defs Let_def)

subsection \<open>Error messages and the status\<close>

lemma distinct_map_remove1:
  assumes "distinct (map f xs)"
  shows "distinct (map f (remove1 x xs))"
proof -
  from assms have d: "distinct xs" "inj_on f (set xs)" by (simp_all add: distinct_map)
  have "inj_on f (set (remove1 x xs))"
    by (rule inj_on_subset [OF d(2) set_remove1_subset])
  with d(1) show ?thesis by (simp add: distinct_map)
qed

lemma distinct_map_remove1_neq:
  assumes "distinct (map f xs)" and "x \<in> set xs" and "y \<in> set (remove1 x xs)"
  shows "f y \<noteq> f x"
proof -
  from assms(1) have d: "distinct xs" "inj_on f (set xs)" by (simp_all add: distinct_map)
  from assms(3) d(1) have "y \<in> set xs" "y \<noteq> x" by simp_all
  with d(2) assms(2) show ?thesis by (auto dest: inj_onD)
qed

lemma distinct_ids_eq:
  "distinct (map id' rows) \<Longrightarrow> r \<in> set rows \<Longrightarrow> r' \<in> set rows \<Longrightarrow> id' r = id' r' \<Longrightarrow> r = r'"
  by (meson distinct_map inj_onD)

lemma set_update_request:
  "set (update_request rid f rows) = (\<lambda>r. if id' r = rid then f r else r) ` set rows"
  by (simp add: update_request_def)

lemma distinct_update_request:
  "(\<And>r. id' (f r) = id' r) \<Longrightarrow>
     distinct (map id' (update_request rid f rows)) = distinct (map id' rows)"
proof -
  assume "\<And>r. id' (f r) = id' r"
  then have "map id' (update_request rid f rows) = map id' rows"
    by (induction rows) (auto simp: update_request_def)
  then show ?thesis by simp
qed

lemma message_iff_failed_update:
  assumes "message_iff_failed rows"
    and "\<And>r. r \<in> set rows \<Longrightarrow> id' r = rid \<Longrightarrow>
           (error_message (f r) \<noteq> None) = (status (f r) = FAILED)"
  shows "message_iff_failed (update_request rid f rows)"
  using assms by (auto simp: message_iff_failed_def update_request_def list_all_iff)

lemma failed_has_message_update:
  assumes "failed_has_message rows"
    and "\<And>r. r \<in> set rows \<Longrightarrow> id' r = rid \<Longrightarrow>
           status (f r) = FAILED \<longrightarrow> error_message (f r) \<noteq> None"
  shows "failed_has_message (update_request rid f rows)"
  using assms by (auto simp: failed_has_message_def update_request_def list_all_iff)

lemma failed_has_message_restore_loop:
  "failed_has_message (requests s) \<Longrightarrow> failed_has_message (requests (restore_loop rs s))"
  by (auto simp: restore_loop_requests failed_has_message_def list_all_iff)

lemma failed_has_message_step:
  assumes "failed_has_message (requests s)"
  shows "failed_has_message (requests (apply_operation op s))"
proof (cases op)
  case (CreateRequest r)
  with assms show ?thesis
    by (simp add: create_request_def failed_has_message_def)
next
  case Start
  with assms show ?thesis
    by (simp add: start_def restore_pending_requests_def failed_has_message_restore_loop)
next
  case Stop
  with assms show ?thesis by (simp add: stop_def)
next
  case WorkerGet
  with assms show ?thesis
    by (auto simp: worker_get_def split: option.splits)
next
  case WorkerHead
  with assms show ?thesis
    by (auto simp: worker_head_def worker_error_def intro!: failed_has_message_update
        split: option.splits worker_state.splits)
next
  case (WorkerEnd oc)
  with assms show ?thesis
    by (cases oc)
      (auto simp: worker_end_def worker_error_def Let_def intro!: failed_has_message_update
        split: option.splits worker_state.splits)
qed (use assms in \<open>simp_all add: enqueue_generation_def enqueue_gemini_generation_def
      enqueue_xai_generation_def\<close>)

lemma failed_has_message_run:
  "failed_has_message (requests s) \<Longrightarrow> failed_has_message (requests (run ops s))"
  by (induction ops arbitrary: s) (simp_all add: failed_has_message_step)

lemma message_iff_failedD:
  "message_iff_failed rows \<Longrightarrow> r \<in> set rows \<Longrightarrow> (error_message r \<noteq> None) = (status r = FAILED)"
  by (simp add: message_iff_failed_def list_all_iff)

lemma consistent_init:
  "distinct (map id' rows) \<Longrightarrow> message_iff_failed rows \<Longrightarrow>
     consistent (QueueManager_init st rows)"
  by (simp add: consistent_def QueueManager_init_def)

text \<open>What \<^verbatim>\<open>start()\<close> does to the table and the queue of a manager that is not running.\<close>

lemma start_requests:
  assumes d: "distinct (map id' (requests s))" and n: "\<not> is_running s"
  shows "requests (start s) =
     map (\<lambda>r. if status r = PENDING \<or> status r = PROCESSING then r\<lparr>status := PENDING\<rparr> else r)
       (requests s)"
proof -
  let ?P = "\<lambda>r. status r = PENDING \<or> status r = PROCESSING"
  have "map (\<lambda>r. if id' r \<in> id' ` set (filter ?P (requests s)) then r\<lparr>status := PENDING\<rparr> else r)
          (requests s) =
        map (\<lambda>r. if ?P r then r\<lparr>status := PENDING\<rparr> else r) (requests s)"
  proof (rule map_cong)
    fix r assume "r \<in> set (requests s)"
    from distinct_ids_filter [OF d this, of ?P]
    show "(if id' r \<in> id' ` set (filter ?P (requests s)) then r\<lparr>status := PENDING\<rparr> else r) =
          (if ?P r then r\<lparr>status := PENDING\<rparr> else r)"
      by simp
  qed simp
  then show ?thesis
    using n by (simp add: start_def restore_pending_requests_def restore_loop_requests)
qed

lemma start_heap:
  "\<not> is_running s \<Longrightarrow>
   heap (queue (start s)) =
     heap (queue s) @
     map (\<lambda>r. \<lparr>priority = 0, request_id = id' r, use_gemini = False, use_xai = False\<rparr>)
       (filter (\<lambda>r. status r = PENDING \<or> status r = PROCESSING) (requests s))"
  by (simp add: start_def restore_pending_requests_def restore_loop_heap)

lemma consistent_start:
  assumes c: "consistent s" and a: "is_running s \<or> heap (queue s) = []"
  shows "consistent (start s)"
proof (cases "is_running s")
  case True
  with c show ?thesis by (simp add: start_def)
next
  case False
  with a have e: "heap (queue s) = []" by simp
  from c have d: "distinct (map id' (requests s))" and m: "message_iff_failed (requests s)"
    by (simp_all add: consistent_def)
  let ?rows = "requests s"
  let ?P = "\<lambda>r. status r = PENDING \<or> status r = PROCESSING"
  let ?f = "\<lambda>r. if ?P r then r\<lparr>status := PENDING\<rparr> else r"
  have rq: "requests (start s) = map ?f ?rows" by (rule start_requests [OF d False])
  have ids: "map id' (requests (start s)) = map id' ?rows"
    unfolding rq by (induction ?rows) auto
  have m': "message_iff_failed (requests (start s))"
    unfolding rq using m by (auto simp: message_iff_failed_def list_all_iff)
  have hp: "heap (queue (start s)) =
      map (\<lambda>r. \<lparr>priority = 0, request_id = id' r, use_gemini = False, use_xai = False\<rparr>)
        (filter ?P ?rows)"
    by (simp add: start_heap [OF False] e)
  have hi: "map request_id (heap (queue (start s))) = map id' (filter ?P ?rows)"
    by (simp add: hp comp_def)
  have dh: "distinct (map request_id (heap (queue (start s))))"
    unfolding hi using d by (rule distinct_map_filter)
  have pend: "status r = PENDING"
    if "t \<in> set (heap (queue (start s)))" "r \<in> set (requests (start s))"
      "id' r = request_id t" for t r
  proof -
    from that(1) obtain r0 where r0: "r0 \<in> set ?rows" "?P r0" "request_id t = id' r0"
      by (auto simp: hp)
    from that(2) obtain r1 where r1: "r1 \<in> set ?rows" "r = ?f r1" by (auto simp: rq)
    from r1 have "id' r = id' r1" by auto
    with that(3) r0 have "id' r1 = id' r0" by simp
    with d r0(1) r1(1) have "r1 = r0" by (auto dest: distinct_ids_eq)
    with r0(2) r1(2) show ?thesis by auto
  qed
  have w: "worker_task (start s) = Some Waiting"
    using False by (simp add: start_def)
  show ?thesis
    unfolding consistent_def
    using d m' dh pend by (auto simp: w ids)
qed

lemma consistent_stop: "consistent s \<Longrightarrow> consistent (stop s)"
  by (auto simp: consistent_def stop_def split: option.splits)

lemma consistent_create:
  assumes c: "consistent s" and a: "id' r \<notin> set (map id' (requests s))"
  shows "consistent (create_request r s)"
proof -
  from c have m: "message_iff_failed (requests s)" by (simp add: consistent_def)
  have m': "message_iff_failed (requests s @ [r\<lparr>status := PENDING, error_message := None\<rparr>])"
    using m by (simp add: message_iff_failed_def)
  show ?thesis
    using c a m' unfolding consistent_def create_request_def by auto
qed

lemma consistent_put:
  assumes c: "consistent s" and ok: "enqueue_ok (request_id t) s"
  shows "consistent (s\<lparr>queue := queue_put t (queue s)\<rparr>)"
proof -
  from c have d: "distinct (map id' (requests s))" by (simp add: consistent_def)
  from ok obtain r0 where r0: "r0 \<in> set (requests s)" "id' r0 = request_id t"
    "status r0 = PENDING" and fresh: "request_id t \<notin> set (map request_id (heap (queue s)))"
    by (auto simp: enqueue_ok_def list_ex_iff)
  have pend: "status r = PENDING" if "r \<in> set (requests s)" "id' r = request_id t" for r
    using distinct_ids_eq [OF d that(1) r0(1)] that(2) r0 by simp
  from ok have nh: "\<not> held_by_worker s (request_id t)" by (simp add: enqueue_ok_def)
  have infl: "request_id u \<noteq> request_id t"
    if "worker_task s = Some (Processing u) \<or> worker_task s = Some (Dequeued u)" for u
    using nh that by (auto simp: held_by_worker_def)
  show ?thesis
    using c fresh pend infl unfolding consistent_def queue_put_def by auto
qed

lemma consistent_enqueue:
  assumes "consistent s" and "enqueue_ok rid s"
  shows "consistent (enqueue_generation rid prio s)"
    "consistent (enqueue_gemini_generation rid prio s)"
    "consistent (enqueue_xai_generation rid prio s)"
  unfolding enqueue_generation_def enqueue_gemini_generation_def enqueue_xai_generation_def
  using assms by (simp_all add: consistent_put)

lemma consistent_worker_get:
  assumes c: "consistent s"
  shows "consistent (worker_get s)"
proof (cases "worker_task s = Some Waiting \<and> is_running s")
  case False
  then have "worker_get s = s \<or> worker_get s = s\<lparr>worker_task := Some Ended\<rparr>"
    by (auto simp: worker_get_def)
  with c show ?thesis by (auto simp: consistent_def)
next
  case True
  then have w: "worker_task s = Some Waiting" and run: "is_running s" by simp_all
  from c have d: "distinct (map id' (requests s))"
    and m: "message_iff_failed (requests s)"
    and dh: "distinct (map request_id (heap (queue s)))"
    and pend: "\<And>t r. t \<in> set (heap (queue s)) \<Longrightarrow> r \<in> set (requests s) \<Longrightarrow>
                 id' r = request_id t \<Longrightarrow> status r = PENDING"
    by (auto simp: consistent_def)
  show ?thesis
  proof (cases "heap (queue s)")
    case Nil
    with c w run show ?thesis by (simp add: worker_get_def queue_get_def)
  next
    case (Cons t ts)
    let ?m = "least_task t ts"
    let ?h = "remove1 ?m (heap (queue s))"
    have mem: "?m \<in> set (heap (queue s))" using least_task_mem [of t ts] Cons by simp
    have g: "queue_get (queue s) = Some (?m, (queue s)\<lparr>heap := ?h\<rparr>)"
      using queue_get_Cons [OF Cons] Cons by simp
    have e: "worker_get s =
        s\<lparr>queue := (queue s)\<lparr>heap := ?h\<rparr>, worker_task := Some (Dequeued ?m)\<rparr>"
      using w run g by (simp add: worker_get_def)
    have dh': "distinct (map request_id ?h)" by (rule distinct_map_remove1 [OF dh])
    have sub: "u \<in> set (heap (queue s))" if "u \<in> set ?h" for u
      using that set_remove1_subset by fastforce
    have neq: "request_id u \<noteq> request_id ?m" if "u \<in> set ?h" for u
      by (rule distinct_map_remove1_neq [OF dh mem that])
    have infl: "request_id ?m \<notin> set (map request_id ?h)"
    proof
      assume "request_id ?m \<in> set (map request_id ?h)"
      then obtain u where "u \<in> set ?h" "request_id u = request_id ?m" by auto
      with neq show False by blast
    qed
    show ?thesis
      unfolding e consistent_def using d m dh' pend pend [OF mem] sub infl by auto
  qed
qed

lemma consistent_worker_head:
  assumes c: "consistent s"
  shows "consistent (worker_head s)"
proof (cases "\<exists>t. worker_task s = Some (Dequeued t)")
  case False
  then have "worker_head s = s"
    by (auto simp: worker_head_def split: option.splits worker_state.splits)
  with c show ?thesis by simp
next
  case True
  then obtain t where w: "worker_task s = Some (Dequeued t)" by blast
  from c have d: "distinct (map id' (requests s))"
    and m: "message_iff_failed (requests s)"
    and dh: "distinct (map request_id (heap (queue s)))"
    and pend: "\<And>u r. u \<in> set (heap (queue s)) \<Longrightarrow> r \<in> set (requests s) \<Longrightarrow>
                 id' r = request_id u \<Longrightarrow> status r = PENDING"
    by (auto simp: consistent_def)
  from c w have notin: "request_id t \<notin> set (map request_id (heap (queue s)))"
    and pt: "\<And>r. r \<in> set (requests s) \<Longrightarrow> id' r = request_id t \<Longrightarrow> status r = PENDING"
    by (auto simp: consistent_def)
  show ?thesis
  proof (cases "get_request (requests s) (request_id t)")
    case None
    then have "worker_head s = worker_error (''Request not found: '' @ request_id t) s"
      by (simp add: worker_head_def w)
    then show ?thesis
      using d m dh pend unfolding consistent_def worker_error_def by auto
  next
    case (Some request)
    from get_request_SomeD [OF Some] have rq: "id' request = request_id t"
      "request \<in> set (requests s)" by simp_all
    let ?f = "\<lambda>r. r\<lparr>status := PROCESSING\<rparr>"
    let ?rows = "update_request (request_id t) ?f (requests s)"
    have e: "worker_head s =
        s\<lparr>requests := ?rows,
          effects := effects s @ [LogProcessing (dispatch t) (request_id t)],
          worker_task := Some (Processing t)\<rparr>"
      using Some rq by (simp add: worker_head_def w)
    have d': "distinct (map id' ?rows)" using d by (simp add: distinct_update_request)
    have m': "message_iff_failed ?rows"
    proof (rule message_iff_failed_update [OF m])
      fix r assume r: "r \<in> set (requests s)" "id' r = request_id t"
      from pt [OF r] have "status r = PENDING" .
      with message_iff_failedD [OF m r(1)] have "error_message r = None" by simp
      then show "(error_message (?f r) \<noteq> None) = (status (?f r) = FAILED)" by simp
    qed
    have pend': "status r = PENDING"
      if "u \<in> set (heap (queue s))" "r \<in> set ?rows" "id' r = request_id u" for u r
    proof -
      from that(2) obtain r0 where r0: "r0 \<in> set (requests s)"
        "r = (if id' r0 = request_id t then ?f r0 else r0)"
        by (auto simp: set_update_request)
      then have "id' r = id' r0" by auto
      moreover from that(1) notin have "request_id u \<noteq> request_id t"
        by (metis imageI list.set_map)
      ultimately have "id' r0 \<noteq> request_id t" using that(3) by simp
      with r0 have "r = r0" by simp
      with pend [OF that(1) r0(1)] that(3) show ?thesis by simp
    qed
    have "?f request \<in> set ?rows" using rq by (force simp: set_update_request)
    then have ex: "\<exists>r\<in>set ?rows. id' r = request_id t \<and> status r = PROCESSING"
      using rq(1) by (intro bexI [of _ "?f request"]) simp_all
    show ?thesis
      unfolding e consistent_def using d' m' dh pend' notin ex by auto
  qed
qed

lemma consistent_finish:
  assumes c: "consistent s" and w: "worker_task s = Some (Processing t)"
    and id: "\<And>r. id' (f r) = id' r"
    and ok: "\<And>r. status r = PROCESSING \<Longrightarrow> error_message r = None \<Longrightarrow>
               (error_message (f r) \<noteq> None) = (status (f r) = FAILED)"
    and s': "heap (queue s') = heap (queue s)"
      "requests s' = update_request (request_id t) f (requests s)"
      "\<And>u. worker_task s' \<noteq> Some (Processing u)"
      "\<And>u. worker_task s' \<noteq> Some (Dequeued u)"
  shows "consistent s'"
proof -
  from c have d: "distinct (map id' (requests s))"
    and m: "message_iff_failed (requests s)"
    and dh: "distinct (map request_id (heap (queue s)))"
    and pend: "\<And>u r. u \<in> set (heap (queue s)) \<Longrightarrow> r \<in> set (requests s) \<Longrightarrow>
                 id' r = request_id u \<Longrightarrow> status r = PENDING"
    by (auto simp: consistent_def)
  from c w obtain r0 where r0: "r0 \<in> set (requests s)" "id' r0 = request_id t"
    "status r0 = PROCESSING" and notin: "request_id t \<notin> set (map request_id (heap (queue s)))"
    by (auto simp: consistent_def)
  let ?rows = "update_request (request_id t) f (requests s)"
  have d': "distinct (map id' ?rows)" using d id by (simp add: distinct_update_request)
  have m': "message_iff_failed ?rows"
  proof (rule message_iff_failed_update [OF m])
    fix r assume r: "r \<in> set (requests s)" "id' r = request_id t"
    with distinct_ids_eq [OF d r(1) r0(1)] r0 have "status r = PROCESSING" by simp
    moreover with message_iff_failedD [OF m r(1)] have "error_message r = None" by simp
    ultimately show "(error_message (f r) \<noteq> None) = (status (f r) = FAILED)" by (rule ok)
  qed
  have pend': "status r = PENDING"
    if "u \<in> set (heap (queue s))" "r \<in> set ?rows" "id' r = request_id u" for u r
  proof -
    from that(2) obtain r1 where r1: "r1 \<in> set (requests s)"
      "r = (if id' r1 = request_id t then f r1 else r1)"
      by (auto simp: set_update_request)
    then have "id' r = id' r1" using id by auto
    moreover from that(1) notin have "request_id u \<noteq> request_id t"
      by (metis imageI list.set_map)
    ultimately have "id' r1 \<noteq> request_id t" using that(3) by simp
    with r1 have "r = r1" by simp
    with pend [OF that(1) r1(1)] that(3) show ?thesis by simp
  qed
  show ?thesis
    unfolding consistent_def s' using d' m' dh pend' s'(3,4) by auto
qed

lemma consistent_worker_end:
  assumes c: "consistent s"
  shows "consistent (worker_end oc s)"
proof (cases "\<exists>t. worker_task s = Some (Processing t)")
  case False
  then have "worker_end oc s = s"
    by (auto simp: worker_end_def split: option.splits worker_state.splits)
  with c show ?thesis by simp
next
  case True
  then obtain t where w: "worker_task s = Some (Processing t)" by blast
  show ?thesis
  proof (cases oc)
    case Succeeds
    show ?thesis
      by (rule consistent_finish [OF c w, where f = "\<lambda>r. r\<lparr>status := COMPLETED\<rparr>"])
        (simp_all add: Succeeds w worker_end_def worker_error_def Let_def task_done_def)
  next
    case (Fails f)
    show ?thesis
      by (rule consistent_finish [OF c w,
            where f = "\<lambda>r. r\<lparr>status := FAILED, error_message := Some (failure_message f)\<rparr>"])
        (simp_all add: Fails w worker_end_def worker_error_def)
  next
    case (FlushFails m)
    then have e: "worker_end oc s = worker_error m s"
      by (simp add: w worker_end_def)
    show ?thesis using c unfolding e consistent_def worker_error_def by auto
  next
    case Cancelled
    then have e: "worker_end oc s = s\<lparr>worker_task := Some Ended\<rparr>"
      by (simp add: w worker_end_def)
    show ?thesis using c unfolding e consistent_def by auto
  qed
qed

lemma consistent_step:
  assumes "consistent s" and "admissible op s"
  shows "consistent (apply_operation op s)"
  using assms
  by (cases op)
    (simp_all add: consistent_create consistent_enqueue consistent_worker_get
      consistent_worker_head consistent_worker_end consistent_start consistent_stop)

lemma consistent_run:
  "consistent s \<Longrightarrow> valid_run ops s \<Longrightarrow> consistent (run ops s)"
  by (induction ops arbitrary: s) (simp_all add: consistent_step)

text \<open>
  C3, as the code has it. In every run of the operations (row creation, the enqueue
  variants, \<^verbatim>\<open>start()\<close>, \<^verbatim>\<open>stop()\<close>, the steps of a worker iteration),
  from any state, a row with status \<open>FAILED\<close> keeps having an error message. In every
  run from a newly constructed manager over a table where an error message is set exactly
  on the failed rows, an error message is set if and only if the status is
  \<open>FAILED\<close>, in the states between the steps of an iteration too, provided the run
  keeps the discipline: a row is created under a new identifier; an identifier is
  enqueued when its row is \<open>PENDING\<close> and no task for it is in the queue or in the
  hands of the worker; and \<^verbatim>\<open>start()\<close> is called on a running manager or on one
  whose queue is empty.
\<close>

theorem error_message_iff_failed_invariant:
  "(failed_has_message (requests s) \<longrightarrow> failed_has_message (requests (run ops s)))
   \<and> (distinct (map id' rows) \<and> message_iff_failed rows
        \<and> valid_run ops (QueueManager_init st rows) \<longrightarrow>
      message_iff_failed (requests (run ops (QueueManager_init st rows))))"
proof -
  have "message_iff_failed (requests (run ops (QueueManager_init st rows)))"
    if "distinct (map id' rows)" "message_iff_failed rows"
      "valid_run ops (QueueManager_init st rows)"
    using consistent_run [OF consistent_init [OF that(1,2)] that(3)]
    by (simp add: consistent_def)
  then show ?thesis by (simp add: failed_has_message_run)
qed

text \<open>
  An instance: a request fails, another is left \<open>PROCESSING\<close> by a failed flush, the
  manager is stopped with an empty queue and started again, and the second request is
  recovered and completed.
\<close>

theorem error_message_iff_failed_invariant_witness:
  "distinct (map id' ([] :: GenerationRequest list))
   \<and> message_iff_failed []
   \<and> failed_has_message (requests (QueueManager_init example_settings []))
   \<and> valid_run example_ops (QueueManager_init example_settings [])
   \<and> requests (run example_ops (QueueManager_init example_settings [])) =
       [(example_row ''r1'' FAILED)\<lparr>error_message := Some ''SD API timeout''\<rparr>,
        example_row ''r2'' COMPLETED]
   \<and> message_iff_failed (requests (run example_ops (QueueManager_init example_settings [])))
   \<and> failed_has_message (requests (run example_ops (QueueManager_init example_settings [])))"
proof -
  have v: "valid_run example_ops (QueueManager_init example_settings [])"
    by (simp add: example_ops_def run_defs)
  have r: "requests (run example_ops (QueueManager_init example_settings [])) =
       [(example_row ''r1'' FAILED)\<lparr>error_message := Some ''SD API timeout''\<rparr>,
        example_row ''r2'' COMPLETED]"
    by (simp add: example_ops_def run_defs)
  have f: "failed_has_message (requests (QueueManager_init example_settings []))"
    by (simp add: run_defs)
  have m: "message_iff_failed []" by (simp add: message_iff_failed_def)
  from error_message_iff_failed_invariant
    [of "QueueManager_init example_settings []" example_ops "[]" example_settings]
    v r f m
  show ?thesis by simp
qed

text \<open>
  The claim C3 as it is stated fails: the error message is never cleared, so a request
  that is processed twice, fails the first time and succeeds the second time ends
  \<open>COMPLETED\<close> with the message of its failure. It is processed twice when it is
  enqueued twice, and also when the manager is stopped while the task is in the queue and
  started again, which enqueues the request once more.
\<close>

theorem error_message_iff_failed_counterexample:
  "requests (run example_double_enqueue (QueueManager_init example_settings [])) =
     [(example_row ''r1'' COMPLETED)\<lparr>error_message := Some ''boom''\<rparr>]
   \<and> \<not> message_iff_failed
         (requests (run example_double_enqueue (QueueManager_init example_settings [])))
   \<and> requests (run example_restart (QueueManager_init example_settings [])) =
     [(example_row ''r1'' COMPLETED)\<lparr>error_message := Some ''boom''\<rparr>]
   \<and> \<not> message_iff_failed
         (requests (run example_restart (QueueManager_init example_settings [])))"
  by (simp add: example_double_enqueue_def example_restart_def run_defs)

end
